theory Spec2Isabelle
  imports Complex_Main "HOL-Library.Word"
begin

section \<open>Values, errors and tensors\<close>

text \<open>
  The TD3 agent of \<^verbatim>\<open>baselines/ddpg_td3/td3_agent.py\<close> and the episode runner of
  \<^verbatim>\<open>lagom/runner/episode_runner.py\<close> are embedded as HOL functions. Tensor entries are
  real numbers; an exception of the Python code is a value \<open>Inl e\<close> of a sum type.
  The tensor library (linear layers, automatic differentiation, Adam) is not part of the
  repository: its operations are fields of the record \<open>backend\<close>, passed to every function
  that calls them. Random draws (exploration noise, smoothing noise, replay samples, fresh
  network weights) are arguments.
\<close>

datatype error =
    AssertionError
  | ValueError
  | IndexError
  | KeyError string
  | AttributeError string
  | ZeroDivisionError
  | UnboundLocalError string
  | RuntimeError

type_synonym tensor = "real list"

text \<open>A linear layer (\<^verbatim>\<open>nn.Linear\<close>) owns two parameter tensors: weight and bias.\<close>

type_synonym linear = "tensor \<times> tensor"

record box =
  low :: "real list"
  high :: "real list"

record Actor =
  feature_layers :: "linear list"
  action_head :: linear
  max_action :: real

record Critic =
  first_feature_layers :: "linear list"
  first_Q_head :: linear
  second_feature_layers :: "linear list"
  second_Q_head :: linear

section \<open>Actor and Critic\<close>

text \<open>\<^verbatim>\<open>np.unique\<close>: the sorted distinct entries. \<^verbatim>\<open>.item()\<close> raises unless the array
  has exactly one entry.\<close>

definition np_unique :: "real list \<Rightarrow> real list" where
  "np_unique xs = sort (remdups xs)"

definition item :: "real list \<Rightarrow> error + real" where
  "item xs = (case xs of [x] \<Rightarrow> Inr x | _ \<Rightarrow> Inl ValueError)"

definition index0 :: "real list \<Rightarrow> error + real" where
  "index0 xs = (case xs of [] \<Rightarrow> Inl IndexError | x # _ \<Rightarrow> Inr x)"

text \<open>
  \<^verbatim>\<open>Actor.__init__\<close>. The two layer stacks arrive freshly initialised (\<open>fl\<close>, \<open>ah\<close>); the two
  assertions on the action space follow, then \<^verbatim>\<open>self.max_action = env.action_space.high[0]\<close>.
\<close>

definition Actor_init :: "box \<Rightarrow> linear list \<Rightarrow> linear \<Rightarrow> error + Actor" where
  "Actor_init action_space fl ah =
     (if length (np_unique (high action_space)) \<noteq> 1 then Inl AssertionError
      else case item (np_unique (low action_space)) of
        Inl e \<Rightarrow> Inl e
      | Inr l \<Rightarrow>
         (case item (np_unique (high action_space)) of
            Inl e \<Rightarrow> Inl e
          | Inr h \<Rightarrow>
             if - l \<noteq> h then Inl AssertionError
             else (case index0 (high action_space) of
                     Inl e \<Rightarrow> Inl e
                   | Inr h0 \<Rightarrow> Inr \<lparr>feature_layers = fl, action_head = ah, max_action = h0\<rparr>)))"

text \<open>\<^verbatim>\<open>Critic.__init__\<close> has no precondition.\<close>

definition Critic_init :: "linear list \<Rightarrow> linear \<Rightarrow> linear list \<Rightarrow> linear \<Rightarrow> Critic" where
  "Critic_init ffl fqh sfl sqh =
     \<lparr>first_feature_layers = ffl, first_Q_head = fqh,
      second_feature_layers = sfl, second_Q_head = sqh\<rparr>"

text \<open>\<^verbatim>\<open>module.parameters()\<close>: the layers in registration order, each standing for its
  weight and its bias.\<close>

definition Actor_parameters :: "Actor \<Rightarrow> linear list" where
  "Actor_parameters a = feature_layers a @ [action_head a]"

definition Critic_parameters :: "Critic \<Rightarrow> linear list" where
  "Critic_parameters c =
     first_feature_layers c @ [first_Q_head c] @ second_feature_layers c @ [second_Q_head c]"

text \<open>Writing a parameter list of the module's own length back into the module (the
  in-place \<^verbatim>\<open>copy_\<close> of every tensor).\<close>

definition Actor_assign :: "Actor \<Rightarrow> linear list \<Rightarrow> Actor" where
  "Actor_assign a ls = a\<lparr>feature_layers := butlast ls, action_head := last ls\<rparr>"

definition Critic_assign :: "Critic \<Rightarrow> linear list \<Rightarrow> Critic" where
  "Critic_assign c ls =
     (let n1 = length (first_feature_layers c); n2 = length (second_feature_layers c)
      in c\<lparr>first_feature_layers := take n1 ls,
            first_Q_head := ls ! n1,
            second_feature_layers := take n2 (drop (Suc n1) ls),
            second_Q_head := ls ! (Suc n1 + n2)\<rparr>)"

text \<open>The operations of the tensor library that the agent calls.\<close>

record 'o backend =
  nn_Linear :: "linear \<Rightarrow> real list \<Rightarrow> real list"
  critic_backward :: "Critic \<Rightarrow> real list list \<Rightarrow> real list list \<Rightarrow> real list list \<Rightarrow> linear list"
  actor_backward :: "Actor \<Rightarrow> Critic \<Rightarrow> real list list \<Rightarrow> linear list"
  clip_grad_norm :: "linear list \<Rightarrow> real \<Rightarrow> linear list \<times> real"
  adam_step :: "real \<Rightarrow> 'o \<Rightarrow> linear list \<Rightarrow> linear list \<Rightarrow> linear list \<times> 'o"
  adam_init :: 'o

definition relu :: "real list \<Rightarrow> real list" where
  "relu x = map (max 0) x"

text \<open>\<^verbatim>\<open>Actor.forward\<close> on one observation row.\<close>

definition Actor_forward :: "'o backend \<Rightarrow> Actor \<Rightarrow> real list \<Rightarrow> real list" where
  "Actor_forward bk a x =
     (let x1 = fold (\<lambda>layer x. relu (nn_Linear bk layer x)) (feature_layers a) x
      in map (\<lambda>z. max_action a * tanh z) (nn_Linear bk (action_head a) x1))"

text \<open>\<^verbatim>\<open>Critic.Q1\<close>, \<^verbatim>\<open>Critic.Q2\<close> and \<^verbatim>\<open>Critic.forward\<close> on one row; the head has one output.\<close>

definition Critic_Q1 :: "'o backend \<Rightarrow> Critic \<Rightarrow> real list \<Rightarrow> real list \<Rightarrow> real list" where
  "Critic_Q1 bk c x action =
     (let x0 = x @ action;
          x1 = fold (\<lambda>layer x. relu (nn_Linear bk layer x)) (first_feature_layers c) x0
      in nn_Linear bk (first_Q_head c) x1)"

definition Critic_Q2 :: "'o backend \<Rightarrow> Critic \<Rightarrow> real list \<Rightarrow> real list \<Rightarrow> real list" where
  "Critic_Q2 bk c x action =
     (let x0 = x @ action;
          x1 = fold (\<lambda>layer x. relu (nn_Linear bk layer x)) (second_feature_layers c) x0
      in nn_Linear bk (second_Q_head c) x1)"

definition Critic_forward ::
  "'o backend \<Rightarrow> Critic \<Rightarrow> real list \<Rightarrow> real list \<Rightarrow> real list \<times> real list" where
  "Critic_forward bk c x action = (Critic_Q1 bk c x action, Critic_Q2 bk c x action)"

section \<open>The TD3 agent\<close>

record config =
  agent_actor_lr :: real
  agent_critic_lr :: real
  agent_polyak :: real
  agent_action_noise :: real
  agent_target_noise :: real
  agent_target_noise_clip :: real
  agent_gamma :: real
  agent_max_grad_norm :: real
  agent_policy_delay :: int
  replay_batch_size :: nat

text \<open>
  An optimizer keeps a reference to the parameters it was constructed over. The agent has
  two modules of each class, so the reference says which of the two the optimizer owns.
\<close>

datatype module_ref = Online | Target

record 'o optimizer =
  param_groups :: module_ref
  lr :: real
  opt_state :: 'o

text \<open>The calls that write parameters are logged in the order they happen; the log is
  not part of the Python object, it only lets one count them.\<close>

datatype event = ActorOptimizerStep | CriticOptimizerStep | PolyakUpdateTarget

record 'o Agent =
  config :: config
  env_action_space :: box
  actor :: Actor
  actor_target :: Actor
  actor_optimizer :: "'o optimizer"
  critic :: Critic
  critic_target :: Critic
  critic_optimizer :: "'o optimizer"
  total_timestep :: "64 word"
  agent_max_action :: real
  history :: "event list"

text \<open>
  \<^verbatim>\<open>state_dict()\<close> maps a key (attribute name and position) to the layer stored there;
  \<^verbatim>\<open>load_state_dict\<close> is strict: the keys and the tensor sizes of the two modules must
  agree, then every tensor is copied into the receiving module.
\<close>

type_synonym state_dict = "((string \<times> nat) \<times> linear) list"

definition keyed :: "string \<Rightarrow> linear list \<Rightarrow> state_dict" where
  "keyed name ls = map (\<lambda>(k, l). ((name, k), l)) (enumerate 0 ls)"

definition Actor_state_dict :: "Actor \<Rightarrow> state_dict" where
  "Actor_state_dict a =
     keyed ''feature_layers'' (feature_layers a) @ [((''action_head'', 0), action_head a)]"

definition Critic_state_dict :: "Critic \<Rightarrow> state_dict" where
  "Critic_state_dict c =
     keyed ''first_feature_layers'' (first_feature_layers c) @ [((''first_Q_head'', 0), first_Q_head c)]
     @ keyed ''second_feature_layers'' (second_feature_layers c) @ [((''second_Q_head'', 0), second_Q_head c)]"

definition shape_of :: "linear \<Rightarrow> nat \<times> nat" where
  "shape_of l = (length (fst l), length (snd l))"

definition compatible :: "state_dict \<Rightarrow> state_dict \<Rightarrow> bool" where
  "compatible sd own \<longleftrightarrow>
     map fst sd = map fst own \<and> map (shape_of \<circ> snd) sd = map (shape_of \<circ> snd) own"

definition Actor_load_state_dict :: "Actor \<Rightarrow> state_dict \<Rightarrow> error + Actor" where
  "Actor_load_state_dict a sd =
     (if compatible sd (Actor_state_dict a) then Inr (Actor_assign a (map snd sd))
      else Inl RuntimeError)"

definition Critic_load_state_dict :: "Critic \<Rightarrow> state_dict \<Rightarrow> error + Critic" where
  "Critic_load_state_dict c sd =
     (if compatible sd (Critic_state_dict c) then Inr (Critic_assign c (map snd sd))
      else Inl RuntimeError)"

text \<open>The freshly initialised layers that the four constructor calls of \<^verbatim>\<open>Agent.__init__\<close>
  draw.\<close>

record fresh =
  actor_layers :: "linear list \<times> linear"
  actor_target_layers :: "linear list \<times> linear"
  critic_layers :: "linear list \<times> linear \<times> linear list \<times> linear"
  critic_target_layers :: "linear list \<times> linear \<times> linear list \<times> linear"

definition Agent_init :: "'o backend \<Rightarrow> config \<Rightarrow> box \<Rightarrow> fresh \<Rightarrow> error + 'o Agent" where
  "Agent_init bk cfg action_space fr =
     (case Actor_init action_space (fst (actor_layers fr)) (snd (actor_layers fr)) of
        Inl e \<Rightarrow> Inl e
      | Inr a \<Rightarrow>
     (case Actor_init action_space (fst (actor_target_layers fr)) (snd (actor_target_layers fr)) of
        Inl e \<Rightarrow> Inl e
      | Inr a0 \<Rightarrow>
     (case Actor_load_state_dict a0 (Actor_state_dict a) of
        Inl e \<Rightarrow> Inl e
      | Inr a_t \<Rightarrow>
     (let ao = \<lparr>param_groups = Online, lr = agent_actor_lr cfg, opt_state = adam_init bk\<rparr>;
          c = (case critic_layers fr of (ffl, fqh, sfl, sqh) \<Rightarrow> Critic_init ffl fqh sfl sqh);
          ct0 = (case critic_target_layers fr of (ffl, fqh, sfl, sqh) \<Rightarrow> Critic_init ffl fqh sfl sqh)
      in case Critic_load_state_dict ct0 (Critic_state_dict c) of
        Inl e \<Rightarrow> Inl e
      | Inr c_t \<Rightarrow>
     (let co = \<lparr>param_groups = Online, lr = agent_critic_lr cfg, opt_state = adam_init bk\<rparr>
      in case index0 (high action_space) of
        Inl e \<Rightarrow> Inl e
      | Inr h0 \<Rightarrow>
          Inr \<lparr>config = cfg, env_action_space = action_space,
               actor = a, actor_target = a_t, actor_optimizer = ao,
               critic = c, critic_target = c_t, critic_optimizer = co,
               total_timestep = 0, agent_max_action = h0, history = []\<rparr>)))))"

text \<open>
  \<^verbatim>\<open>polyak_update_target\<close>. \<open>zip_update\<close> is the loop over \<^verbatim>\<open>zip(source, target)\<close> that
  overwrites each paired target tensor; a target tensor without a partner keeps its value.
\<close>

definition mix :: "real \<Rightarrow> tensor \<Rightarrow> tensor \<Rightarrow> tensor" where
  "mix p param target_param = map2 (\<lambda>s t. p * t + (1 - p) * s) param target_param"

definition polyak_linear :: "real \<Rightarrow> linear \<Rightarrow> linear \<Rightarrow> linear" where
  "polyak_linear p param target_param =
     (mix p (fst param) (fst target_param), mix p (snd param) (snd target_param))"

definition zip_update :: "('a \<Rightarrow> 'a \<Rightarrow> 'a) \<Rightarrow> 'a list \<Rightarrow> 'a list \<Rightarrow> 'a list" where
  "zip_update f ps ts = map2 f ps ts @ drop (length ps) ts"

definition polyak_update_target :: "'o Agent \<Rightarrow> 'o Agent" where
  "polyak_update_target ag =
     (let p = agent_polyak (config ag);
          a_t = Actor_assign (actor_target ag)
                 (zip_update (polyak_linear p) (Actor_parameters (actor ag))
                    (Actor_parameters (actor_target ag)));
          c_t = Critic_assign (critic_target ag)
                 (zip_update (polyak_linear p) (Critic_parameters (critic ag))
                    (Critic_parameters (critic_target ag)))
      in ag\<lparr>actor_target := a_t, critic_target := c_t,
            history := history ag @ [PolyakUpdateTarget]\<rparr>)"

text \<open>Python values that travel through keyword arguments and result dictionaries.\<close>

datatype pyval =
    PyStr string
  | PyDict
  | PyArray "real list"
  | PyList "real list list"
  | PyTensor "real list list"

type_synonym dict = "string \<rightharpoonup> pyval"

text \<open>What \<^verbatim>\<open>choose_action\<close> may be handed as \<open>x\<close>: a time step carrying an observation, or
  the bare observation batch of a vectorized environment (which has no attribute
  \<^verbatim>\<open>observation\<close>).\<close>

datatype pyobs = TimeStep "real list" | Observations "real list list"

definition get_observation :: "pyobs \<Rightarrow> error + real list" where
  "get_observation x =
     (case x of TimeStep ob \<Rightarrow> Inr ob | Observations _ \<Rightarrow> Inl (AttributeError ''observation''))"

text \<open>
  \<^verbatim>\<open>np.clip(a, a_min, a_max)\<close> is \<^verbatim>\<open>minimum(a_max, maximum(a, a_min))\<close> entry by entry, and
  \<^verbatim>\<open>torch.clamp\<close> computes the same. The three one-dimensional operands are broadcast
  first: lengths other than 1 must agree.
\<close>

definition clamp :: "real \<Rightarrow> real \<Rightarrow> real \<Rightarrow> real" where
  "clamp x lo hi = min hi (max x lo)"

definition broadcast_shape :: "nat list \<Rightarrow> error + nat" where
  "broadcast_shape ns =
     (case remdups (filter (\<lambda>n. n \<noteq> 1) ns) of
        [] \<Rightarrow> Inr 1
      | [n] \<Rightarrow> Inr n
      | _ \<Rightarrow> Inl ValueError)"

definition broadcast_to :: "nat \<Rightarrow> real list \<Rightarrow> real list" where
  "broadcast_to n xs = (if length xs = n then xs else replicate n (hd xs))"

definition np_clip :: "real list \<Rightarrow> real list \<Rightarrow> real list \<Rightarrow> error + real list" where
  "np_clip a a_min a_max =
     (case broadcast_shape [length a, length a_min, length a_max] of
        Inl e \<Rightarrow> Inl e
      | Inr n \<Rightarrow>
          Inr (map (\<lambda>(x, lo, hi). clamp x lo hi)
                 (zip (broadcast_to n a) (zip (broadcast_to n a_min) (broadcast_to n a_max)))))"

text \<open>
  \<^verbatim>\<open>choose_action\<close>. \<open>noise k\<close> is the draw of \<^verbatim>\<open>np.random.normal\<close> for entry \<open>k\<close>
  (\<^verbatim>\<open>size=action.shape\<close>).
\<close>

definition choose_action ::
  "'o backend \<Rightarrow> 'o Agent \<Rightarrow> pyobs \<Rightarrow> dict \<Rightarrow> (nat \<Rightarrow> real) \<Rightarrow> error + dict" where
  "choose_action bk ag x kwargs noise =
     (case get_observation x of
        Inl e \<Rightarrow> Inl e
      | Inr obs \<Rightarrow>
     (let action = Actor_forward bk (actor ag) obs
      in case kwargs ''mode'' of
        None \<Rightarrow> Inl (KeyError ''mode'')
      | Some mode \<Rightarrow>
          if mode = PyStr ''train'' then
            (let eps = map noise [0..<length action]
             in case np_clip (map2 (+) action eps)
                       (low (env_action_space ag)) (high (env_action_space ag)) of
                  Inl e \<Rightarrow> Inl e
                | Inr action' \<Rightarrow> Inr [''raw_action'' \<mapsto> PyArray action'])
          else Inr [''raw_action'' \<mapsto> PyArray action]))"

subsection \<open>learn\<close>

text \<open>One draw of \<^verbatim>\<open>replay.sample\<close>: five tensors with one row per sampled transition.\<close>

record samples =
  observations :: "real list list"
  actions :: "real list list"
  next_observations :: "real list list"
  rewards :: "real list list"
  masks :: "real list list"

text \<open>\<^verbatim>\<open>torch.empty_like(t).normal_(...)\<close>: a tensor of the shape of \<open>t\<close> whose entry
  \<open>(r, c)\<close> is the draw \<open>noise r c\<close>.\<close>

definition normal_like :: "(nat \<Rightarrow> nat \<Rightarrow> real) \<Rightarrow> real list list \<Rightarrow> real list list" where
  "normal_like noise t = map (\<lambda>(r, row). map (noise r) [0..<length row]) (enumerate 0 t)"

definition tmap2 :: "(real \<Rightarrow> real \<Rightarrow> real) \<Rightarrow> real list list \<Rightarrow> real list list \<Rightarrow> real list list" where
  "tmap2 f s t = map2 (map2 f) s t"

definition tmap :: "(real \<Rightarrow> real) \<Rightarrow> real list list \<Rightarrow> real list list" where
  "tmap f t = map (map f) t"

text \<open>Lines 113 to 116: the next actions of the target actor, smoothed and clamped.\<close>

definition next_actions_of ::
  "'o backend \<Rightarrow> 'o Agent \<Rightarrow> real list list \<Rightarrow> (nat \<Rightarrow> nat \<Rightarrow> real) \<Rightarrow> real list list" where
  "next_actions_of bk ag next_obs noise =
     (let next_actions = map (Actor_forward bk (actor_target ag)) next_obs;
          eps = normal_like noise next_actions;
          eps = tmap (\<lambda>e. clamp e (- agent_target_noise_clip (config ag))
                                   (agent_target_noise_clip (config ag))) eps
      in tmap (\<lambda>a. clamp a (- agent_max_action ag) (agent_max_action ag))
           (tmap2 (+) next_actions eps))"

text \<open>Lines 113 to 119: the regression targets.\<close>

definition targets_of ::
  "'o backend \<Rightarrow> 'o Agent \<Rightarrow> samples \<Rightarrow> (nat \<Rightarrow> nat \<Rightarrow> real) \<Rightarrow> real list list" where
  "targets_of bk ag smp noise =
     (let next_actions = next_actions_of bk ag (next_observations smp) noise;
          next_Qs12 = map2 (Critic_forward bk (critic_target ag)) (next_observations smp) next_actions;
          next_Qs = tmap2 min (map fst next_Qs12) (map snd next_Qs12)
      in tmap2 (+) (rewards smp)
           (tmap2 (*) (tmap (\<lambda>m. agent_gamma (config ag) * m) (masks smp)) next_Qs))"

text \<open>\<^verbatim>\<open>F.mse_loss\<close> with the default mean reduction, and the mean of a list of scalars.
  Both are used on non-empty lists only; of an empty one the library returns nan, which
  the reals do not have.\<close>

definition mean :: "real list \<Rightarrow> real" where
  "mean xs = sum_list xs / real (length xs)"

definition mse_loss :: "real list list \<Rightarrow> real list list \<Rightarrow> real" where
  "mse_loss input target = mean (concat (tmap2 (\<lambda>x y. (x - y)\<^sup>2) input target))"

text \<open>\<^verbatim>\<open>optimizer.step()\<close> writes only the parameters the optimizer refers to.\<close>

definition actor_optimizer_step :: "'o backend \<Rightarrow> linear list \<Rightarrow> 'o Agent \<Rightarrow> 'o Agent" where
  "actor_optimizer_step bk grads ag =
     (let opt = actor_optimizer ag;
          owned = (case param_groups opt of Online \<Rightarrow> actor ag | Target \<Rightarrow> actor_target ag);
          (ps, st) = adam_step bk (lr opt) (opt_state opt) (Actor_parameters owned) grads;
          ag1 = (case param_groups opt of
                   Online \<Rightarrow> ag\<lparr>actor := Actor_assign owned ps\<rparr>
                 | Target \<Rightarrow> ag\<lparr>actor_target := Actor_assign owned ps\<rparr>)
      in ag1\<lparr>actor_optimizer := opt\<lparr>opt_state := st\<rparr>,
             history := history ag1 @ [ActorOptimizerStep]\<rparr>)"

definition critic_optimizer_step :: "'o backend \<Rightarrow> linear list \<Rightarrow> 'o Agent \<Rightarrow> 'o Agent" where
  "critic_optimizer_step bk grads ag =
     (let opt = critic_optimizer ag;
          owned = (case param_groups opt of Online \<Rightarrow> critic ag | Target \<Rightarrow> critic_target ag);
          (ps, st) = adam_step bk (lr opt) (opt_state opt) (Critic_parameters owned) grads;
          ag1 = (case param_groups opt of
                   Online \<Rightarrow> ag\<lparr>critic := Critic_assign owned ps\<rparr>
                 | Target \<Rightarrow> ag\<lparr>critic_target := Critic_assign owned ps\<rparr>)
      in ag1\<lparr>critic_optimizer := opt\<lparr>opt_state := st\<rparr>,
             history := history ag1 @ [CriticOptimizerStep]\<rparr>)"

text \<open>The local variables of \<^verbatim>\<open>learn\<close>; the two gradient norms are unbound until the first
  assignment.\<close>

record locals =
  list_actor_loss :: "real list"
  list_critic_loss :: "real list"
  Q1_vals :: "real list list list"
  Q2_vals :: "real list list list"
  actor_grad_norm :: "real option"
  critic_grad_norm :: "real option"

text \<open>
  The body of the loop for index \<open>i\<close>. \<open>replay i\<close> is the batch that \<^verbatim>\<open>replay.sample\<close>
  returns in this iteration and \<open>noise i\<close> the smoothing draws. Every \<^verbatim>\<open>backward\<close> call is
  preceded by \<^verbatim>\<open>zero_grad\<close> on both optimizers, so the gradients an optimizer steps on are
  those of the loss just computed. A raise leaves the agent as it is at that point.
\<close>

definition learn_body ::
  "'o backend \<Rightarrow> (nat \<Rightarrow> samples) \<Rightarrow> (nat \<Rightarrow> nat \<Rightarrow> nat \<Rightarrow> real) \<Rightarrow> nat \<Rightarrow>
     'o Agent \<times> locals \<Rightarrow> 'o Agent \<times> (error + locals)" where
  "learn_body bk replay noise i st =
     (let ag = fst st; lc = snd st;
          smp = replay i;
          Qs12 = map2 (Critic_forward bk (critic ag)) (observations smp) (actions smp);
          Qs1 = map fst Qs12;
          Qs2 = map snd Qs12;
          targets = targets_of bk ag smp (noise i);
          critic_loss = mse_loss Qs1 targets + mse_loss Qs2 targets;
          cg = clip_grad_norm bk
                 (critic_backward bk (critic ag) (observations smp) (actions smp) targets)
                 (agent_max_grad_norm (config ag));
          ag1 = critic_optimizer_step bk (fst cg) ag;
          lc1 = lc\<lparr>critic_grad_norm := Some (snd cg)\<rparr>
      in if agent_policy_delay (config ag1) = 0 then (ag1, Inl ZeroDivisionError)
         else
           (let (ag3, lc3) =
                  (if int i mod agent_policy_delay (config ag1) = 0 then
                     (let actor_loss =
                            - mean (concat (map (\<lambda>ob. Critic_Q1 bk (critic ag1) ob
                                                    (Actor_forward bk (actor ag1) ob))
                                             (observations smp)));
                          grads = actor_backward bk (actor ag1) (critic ag1) (observations smp);
                          cga = clip_grad_norm bk grads (agent_max_grad_norm (config ag1));
                          ag2 = actor_optimizer_step bk (fst cga) ag1
                      in (polyak_update_target ag2,
                          lc1\<lparr>actor_grad_norm := Some (snd cga),
                               list_actor_loss := list_actor_loss lc1 @ [actor_loss]\<rparr>))
                   else (ag1, lc1))
            in (ag3, Inr (lc3\<lparr>list_critic_loss := list_critic_loss lc3 @ [critic_loss],
                                Q1_vals := Q1_vals lc3 @ [Qs1],
                                Q2_vals := Q2_vals lc3 @ [Qs2]\<rparr>))))"

text \<open>\<^verbatim>\<open>for i in range(T)\<close>, run over the list of indices.\<close>

fun learn_loop ::
  "'o backend \<Rightarrow> (nat \<Rightarrow> samples) \<Rightarrow> (nat \<Rightarrow> nat \<Rightarrow> nat \<Rightarrow> real) \<Rightarrow> nat list \<Rightarrow>
     'o Agent \<times> locals \<Rightarrow> 'o Agent \<times> (error + locals)" where
  "learn_loop bk replay noise [] st = (fst st, Inr (snd st))"
| "learn_loop bk replay noise (i # is) st =
     (case learn_body bk replay noise i st of
        (ag, Inl e) \<Rightarrow> (ag, Inl e)
      | (ag, Inr lc) \<Rightarrow> learn_loop bk replay noise is (ag, lc))"

text \<open>
  \<^verbatim>\<open>self.total_timestep += T\<close> on a 64-bit integer tensor: a Python integer outside the
  64-bit range is refused, the addition itself wraps around.
\<close>

definition iadd :: "64 word \<Rightarrow> int \<Rightarrow> error + 64 word" where
  "iadd w T = (if - (2 ^ 63) \<le> T \<and> T < 2 ^ 63 then Inr (w + word_of_int T) else Inl RuntimeError)"

text \<open>The locals at loop entry: four empty lists, the norms unbound.\<close>

definition lc_empty :: locals where
  "lc_empty = \<lparr>list_actor_loss = [], list_critic_loss = [], Q1_vals = [], Q2_vals = [],
                actor_grad_norm = None, critic_grad_norm = None\<rparr>"

record learn_out =
  out_actor_loss :: real
  out_actor_grad_norm :: real
  out_critic_loss :: real
  out_critic_grad_norm :: real
  out_Q1 :: "real list"
  out_Q2 :: "real list"

definition learn ::
  "'o backend \<Rightarrow> (nat \<Rightarrow> samples) \<Rightarrow> (nat \<Rightarrow> nat \<Rightarrow> nat \<Rightarrow> real) \<Rightarrow> int \<Rightarrow>
     'o Agent \<Rightarrow> 'o Agent \<times> (error + learn_out)" where
  "learn bk replay noise T ag =
     (case learn_loop bk replay noise [0..<nat T] (ag, lc_empty) of
        (ag1, Inl e) \<Rightarrow> (ag1, Inl e)
      | (ag1, Inr lc) \<Rightarrow>
         (case iadd (total_timestep ag1) T of
            Inl e \<Rightarrow> (ag1, Inl e)
          | Inr tt \<Rightarrow>
             (let ag2 = ag1\<lparr>total_timestep := tt\<rparr>
              in case actor_grad_norm lc of
                None \<Rightarrow> (ag2, Inl (UnboundLocalError ''actor_grad_norm''))
              | Some an \<Rightarrow>
                 (case critic_grad_norm lc of
                    None \<Rightarrow> (ag2, Inl (UnboundLocalError ''critic_grad_norm''))
                  | Some cn \<Rightarrow>
                      (ag2, Inr \<lparr>out_actor_loss = mean (list_actor_loss lc),
                                 out_actor_grad_norm = an,
                                 out_critic_loss = mean (list_critic_loss lc),
                                 out_critic_grad_norm = cn,
                                 out_Q1 = concat (concat (Q1_vals lc)),
                                 out_Q2 = concat (concat (Q2_vals lc))\<rparr>)))))"

section \<open>The episode runner\<close>

text \<open>
  Modelled from the spec: the trajectory container \<^verbatim>\<open>BatchEpisode\<close> of \<^verbatim>\<open>lagom.history\<close>,
  which is not among the source files. It appends what it is given to its sequences and
  keeps one completed flag per environment instance, false at first and set by
  \<^verbatim>\<open>set_completed\<close>.
\<close>

record BatchEpisode =
  D_observations :: "pyobs list"
  D_actions :: "pyval list"
  D_rewards :: "real list list"
  D_dones :: "bool list list"
  D_infos :: "pyval list"
  D_batch_infos :: "dict list"
  completes :: "bool list"

definition BatchEpisode_init :: "nat \<Rightarrow> BatchEpisode" where
  "BatchEpisode_init N =
     \<lparr>D_observations = [], D_actions = [], D_rewards = [], D_dones = [], D_infos = [],
      D_batch_infos = [], completes = replicate N False\<rparr>"

definition add_observation :: "pyobs \<Rightarrow> BatchEpisode \<Rightarrow> BatchEpisode" where
  "add_observation obs D = D\<lparr>D_observations := D_observations D @ [obs]\<rparr>"

definition add_action :: "pyval \<Rightarrow> BatchEpisode \<Rightarrow> BatchEpisode" where
  "add_action a D = D\<lparr>D_actions := D_actions D @ [a]\<rparr>"

definition add_reward :: "real list \<Rightarrow> BatchEpisode \<Rightarrow> BatchEpisode" where
  "add_reward r D = D\<lparr>D_rewards := D_rewards D @ [r]\<rparr>"

definition add_done :: "bool list \<Rightarrow> BatchEpisode \<Rightarrow> BatchEpisode" where
  "add_done d D = D\<lparr>D_dones := D_dones D @ [d]\<rparr>"

definition add_info :: "pyval \<Rightarrow> BatchEpisode \<Rightarrow> BatchEpisode" where
  "add_info i D = D\<lparr>D_infos := D_infos D @ [i]\<rparr>"

definition add_batch_info :: "dict \<Rightarrow> BatchEpisode \<Rightarrow> BatchEpisode" where
  "add_batch_info i D = D\<lparr>D_batch_infos := D_batch_infos D @ [i]\<rparr>"

definition set_completed :: "nat \<Rightarrow> bool list \<Rightarrow> error + bool list" where
  "set_completed n cs = (if n < length cs then Inr (cs[n := True]) else Inl IndexError)"

text \<open>\<^verbatim>\<open>[D.set_completed(n) for n, d in enumerate(done) if d]\<close>\<close>

fun mark_completed :: "(nat \<times> bool) list \<Rightarrow> bool list \<Rightarrow> error + bool list" where
  "mark_completed [] cs = Inr cs"
| "mark_completed ((n, d) # nds) cs =
     (if d then (case set_completed n cs of Inl e \<Rightarrow> Inl e | Inr cs' \<Rightarrow> mark_completed nds cs')
      else mark_completed nds cs)"

text \<open>The two collaborators of the runner: the agent (with whatever state it carries from
  call to call) and the vectorized environment.\<close>

record 'a agent_iface =
  agent_reset :: "'a \<Rightarrow> 'a"
  agent_choose_action :: "pyobs \<Rightarrow> dict \<Rightarrow> 'a \<Rightarrow> error + dict \<times> 'a"

record 's env_iface =
  num_env :: nat
  env_reset :: "'s \<Rightarrow> pyobs \<times> 's"
  env_step :: "pyval \<Rightarrow> 's \<Rightarrow> error + (pyobs \<times> real list \<times> bool list \<times> pyval) \<times> 's"

definition dict_pop :: "dict \<Rightarrow> string \<Rightarrow> error + pyval \<times> dict" where
  "dict_pop d k = (case d k of None \<Rightarrow> Inl (KeyError k) | Some v \<Rightarrow> Inr (v, d(k := None)))"

text \<open>A tensor action becomes the list of its rows, anything else is passed on as it is.\<close>

definition to_raw_action :: "pyval \<Rightarrow> pyval" where
  "to_raw_action action = (case action of PyTensor rows \<Rightarrow> PyList rows | _ \<Rightarrow> action)"

text \<open>The loop of \<^verbatim>\<open>EpisodeRunner.__call__\<close> over the remaining indices of \<^verbatim>\<open>range(T)\<close>; the
  state is the current observation, the agent, the environment and the trajectory.\<close>

fun run_steps ::
  "'a agent_iface \<Rightarrow> 's env_iface \<Rightarrow> nat list \<Rightarrow> pyobs \<times> 'a \<times> 's \<times> BatchEpisode \<Rightarrow>
     error + BatchEpisode \<times> 'a \<times> 's" where
  "run_steps A E [] (obs, a, s, D) = Inr (D, a, s)"
| "run_steps A E (t # ts) (obs, a, s, D) =
     (case agent_choose_action A obs [''info'' \<mapsto> PyDict] a of
        Inl e \<Rightarrow> Inl e
      | Inr (out_agent, a1) \<Rightarrow>
     (case dict_pop out_agent ''action'' of
        Inl e \<Rightarrow> Inl e
      | Inr (action, out_agent1) \<Rightarrow>
     (let raw_action = to_raw_action action;
          D1 = add_action raw_action D
      in case env_step E raw_action s of
        Inl e \<Rightarrow> Inl e
      | Inr ((obs1, reward, done, info), s1) \<Rightarrow>
     (let D2 = add_info info (add_done done (add_reward reward (add_observation obs1 D1)))
      in case mark_completed (enumerate 0 done) (completes D2) of
        Inl e \<Rightarrow> Inl e
      | Inr cs \<Rightarrow>
     (let D3 = add_batch_info out_agent1 (D2\<lparr>completes := cs\<rparr>)
      in if list_all (\<lambda>c. c) (completes D3) then Inr (D3, a1, s1)
         else run_steps A E ts (obs1, a1, s1, D3))))))"

definition EpisodeRunner_call ::
  "'a agent_iface \<Rightarrow> 's env_iface \<Rightarrow> int \<Rightarrow> 'a \<times> 's \<Rightarrow> error + BatchEpisode \<times> 'a \<times> 's" where
  "EpisodeRunner_call A E T st =
     (let D = BatchEpisode_init (num_env E);
          (obs, s1) = env_reset E (snd st);
          D1 = add_observation obs D;
          a1 = agent_reset A (fst st)
      in run_steps A E [0..<nat T] (obs, a1, s1, D1))"

text \<open>The TD3 agent as the runner's collaborator: its state is the agent together with the
  exploration draws it will consume; \<^verbatim>\<open>reset\<close> does nothing.\<close>

definition TD3_iface :: "'o backend \<Rightarrow> ('o Agent \<times> (nat \<Rightarrow> real)) agent_iface" where
  "TD3_iface bk =
     \<lparr>agent_reset = (\<lambda>a. a),
      agent_choose_action = (\<lambda>x kwargs a.
         case choose_action bk (fst a) x kwargs (snd a) of
           Inl e \<Rightarrow> Inl e
         | Inr out \<Rightarrow> Inr (out, a))\<rparr>"

section \<open>Properties in the words of the specification\<close>

text \<open>The precondition in the words of the specification: every upper bound is the same
  value \<open>m\<close> and every lower bound is \<open>- m\<close>.\<close>

definition symmetric_uniform :: "box \<Rightarrow> real \<Rightarrow> bool" where
  "symmetric_uniform sp m \<longleftrightarrow> set (high sp) = {m} \<and> set (low sp) = {- m}"

text \<open>The parameter tensors of a module, weight and bias of every layer in turn.\<close>

definition tensors :: "linear list \<Rightarrow> tensor list" where
  "tensors ls = concat (map (\<lambda>l. [fst l, snd l]) ls)"

text \<open>Two parameter lists of the same architecture: layer by layer the same sizes.\<close>

definition same_shapes :: "linear list \<Rightarrow> linear list \<Rightarrow> bool" where
  "same_shapes ps ts \<longleftrightarrow> list_all2 (\<lambda>p t. shape_of p = shape_of t) ps ts"

text \<open>\<open>target = p * target + (1 - p) * source\<close> for every entry of every parameter tensor,
  relating the target parameters \<open>tgt'\<close> after the update to \<open>tgt\<close> before it.\<close>

definition polyak_relation :: "real \<Rightarrow> linear list \<Rightarrow> linear list \<Rightarrow> linear list \<Rightarrow> bool" where
  "polyak_relation p src tgt tgt' \<longleftrightarrow>
     map length (tensors tgt') = map length (tensors tgt) \<and>
     (\<forall>i < length (tensors tgt). \<forall>k < length (tensors tgt ! i).
        tensors tgt' ! i ! k = p * tensors tgt ! i ! k + (1 - p) * tensors src ! i ! k)"

section \<open>A small instance\<close>

text \<open>
  A one-dimensional action space \<open>[-2, 2]\<close>, networks with one unit per layer, and a
  stand-in for the tensor library: a row-major linear layer, unit gradients and a plain
  gradient step in place of Adam. The instance is used to run the definitions on concrete
  inputs.
\<close>

definition ex_Linear :: "linear \<Rightarrow> real list \<Rightarrow> real list" where
  "ex_Linear l x =
     map (\<lambda>i. sum_list (map (\<lambda>j. fst l ! (i * length x + j) * x ! j) [0..<length x]) + snd l ! i)
       [0..<length (snd l)]"

definition ex_ones :: "linear list \<Rightarrow> linear list" where
  "ex_ones ps = map (\<lambda>l. (map (\<lambda>_. 1) (fst l), map (\<lambda>_. 1) (snd l))) ps"

definition ex_descent :: "real \<Rightarrow> linear \<Rightarrow> linear \<Rightarrow> linear" where
  "ex_descent r p g = (map2 (\<lambda>x d. x - r * d) (fst p) (fst g), map2 (\<lambda>x d. x - r * d) (snd p) (snd g))"

definition ex_backend :: "nat backend" where
  "ex_backend =
     \<lparr>nn_Linear = ex_Linear,
      critic_backward = (\<lambda>c obs acts tg. ex_ones (Critic_parameters c)),
      actor_backward = (\<lambda>a c obs. ex_ones (Actor_parameters a)),
      clip_grad_norm = (\<lambda>g m. (g, 1)),
      adam_step = (\<lambda>r st ps gs. (map2 (ex_descent r) ps gs, Suc st)),
      adam_init = 0\<rparr>"

definition ex_space :: box where
  "ex_space = \<lparr>low = [- 2], high = [2]\<rparr>"

definition ex_config :: config where
  "ex_config =
     \<lparr>agent_actor_lr = 1, agent_critic_lr = 1, agent_polyak = 1 / 2,
      agent_action_noise = 1, agent_target_noise = 1, agent_target_noise_clip = 1 / 2,
      agent_gamma = 1 / 2, agent_max_grad_norm = 1, agent_policy_delay = 2,
      replay_batch_size = 1\<rparr>"

definition ex_critic :: Critic where
  "ex_critic =
     \<lparr>first_feature_layers = [([1, 1], [0]), ([1], [0])], first_Q_head = ([1], [0]),
      second_feature_layers = [([0, 1], [0]), ([1], [0])], second_Q_head = ([2], [0])\<rparr>"

definition ex_critic_blank :: Critic where
  "ex_critic_blank =
     \<lparr>first_feature_layers = [([0, 0], [0]), ([0], [0])], first_Q_head = ([0], [0]),
      second_feature_layers = [([0, 0], [0]), ([0], [0])], second_Q_head = ([0], [0])\<rparr>"

definition ex_fresh :: fresh where
  "ex_fresh =
     \<lparr>actor_layers = ([([1], [0]), ([1], [0])], ([1], [0])),
      actor_target_layers = ([([0], [0]), ([0], [0])], ([0], [0])),
      critic_layers = ([([1, 1], [0]), ([1], [0])], ([1], [0]), [([0, 1], [0]), ([1], [0])], ([2], [0])),
      critic_target_layers =
        ([([0, 0], [0]), ([0], [0])], ([0], [0]), [([0, 0], [0]), ([0], [0])], ([0], [0]))\<rparr>"

definition ex_actor :: Actor where
  "ex_actor = \<lparr>feature_layers = [([1], [0]), ([1], [0])], action_head = ([1], [0]), max_action = 2\<rparr>"

definition ex_actor_blank :: Actor where
  "ex_actor_blank = \<lparr>feature_layers = [([0], [0]), ([0], [0])], action_head = ([0], [0]), max_action = 2\<rparr>"

definition ex_agent :: "nat Agent" where
  "ex_agent =
     \<lparr>config = ex_config, env_action_space = ex_space,
      actor = ex_actor, actor_target = ex_actor,
      actor_optimizer = \<lparr>param_groups = Online, lr = 1, opt_state = 0\<rparr>,
      critic = ex_critic, critic_target = ex_critic,
      critic_optimizer = \<lparr>param_groups = Online, lr = 1, opt_state = 0\<rparr>,
      total_timestep = 0, agent_max_action = 2, history = []\<rparr>"

text \<open>The instance with target networks that differ from the online ones and a chosen
  polyak coefficient.\<close>

definition ex_agent_polyak :: "real \<Rightarrow> nat Agent" where
  "ex_agent_polyak p =
     ex_agent\<lparr>actor_target := ex_actor_blank, critic_target := ex_critic_blank,
              config := ex_config\<lparr>agent_polyak := p\<rparr>\<rparr>"

section \<open>Agent states and their invariants\<close>

text \<open>The agent states that can arise: the constructor's result, the state after any
  number of iterations of the loop of \<^verbatim>\<open>learn\<close>, and the state a call of \<^verbatim>\<open>learn\<close>
  leaves behind (also one that raised).\<close>

inductive reachable :: "'o backend \<Rightarrow> box \<Rightarrow> 'o Agent \<Rightarrow> bool" for bk :: "'o backend" and sp :: box where
  constructed: "Agent_init bk cfg sp fr = Inr ag \<Longrightarrow> reachable bk sp ag"
| learning: "reachable bk sp ag \<Longrightarrow> reachable bk sp (fst (learn_loop bk replay noise is (ag, lc)))"
| learned: "reachable bk sp ag \<Longrightarrow> reachable bk sp (fst (learn bk replay noise T ag))"

text \<open>The action space is a box in the usual sense: no lower bound exceeds its upper
  bound.\<close>

definition lower_le_upper :: "box \<Rightarrow> bool" where
  "lower_le_upper sp \<longleftrightarrow> list_all2 (\<le>) (low sp) (high sp)"

text \<open>The three copies of the bound (agent, actor, target actor) agree with the action
  space.\<close>

definition bounds_agree :: "box \<Rightarrow> 'o Agent \<Rightarrow> bool" where
  "bounds_agree sp ag \<longleftrightarrow>
     env_action_space ag = sp \<and>
     symmetric_uniform sp (agent_max_action ag) \<and>
     max_action (actor ag) = agent_max_action ag \<and>
     max_action (actor_target ag) = agent_max_action ag"

definition bounded_by :: "real \<Rightarrow> real list \<Rightarrow> bool" where
  "bounded_by m a \<longleftrightarrow> (\<forall>v \<in> set a. - m \<le> v \<and> v \<le> m)"

text \<open>
  The regression target in the words of the specification, for entry \<open>j\<close> of the sample in
  row \<open>r\<close>: the next action is the target actor's output plus the smoothing draw clipped
  to \<open>\<plusminus> target_noise_clip\<close>, the sum clipped to \<open>\<plusminus> max_action\<close>; the target is
  \<open>reward + gamma * mask * min(Q1, Q2)\<close> of the target critic at the next observation and
  that action.
\<close>

definition spec_next_action :: "'o backend \<Rightarrow> 'o Agent \<Rightarrow> real list \<Rightarrow> (nat \<Rightarrow> real) \<Rightarrow> real list" where
  "spec_next_action bk ag next_ob draws =
     map (\<lambda>k. clamp (Actor_forward bk (actor_target ag) next_ob ! k
                      + clamp (draws k) (- agent_target_noise_clip (config ag))
                          (agent_target_noise_clip (config ag)))
                (- agent_max_action ag) (agent_max_action ag))
       [0..<length (Actor_forward bk (actor_target ag) next_ob)]"

definition spec_target ::
  "'o backend \<Rightarrow> 'o Agent \<Rightarrow> samples \<Rightarrow> (nat \<Rightarrow> nat \<Rightarrow> real) \<Rightarrow> nat \<Rightarrow> nat \<Rightarrow> real" where
  "spec_target bk ag smp noise r j =
     (let next_ob = next_observations smp ! r;
          next_action = spec_next_action bk ag next_ob (noise r)
      in rewards smp ! r ! j
         + agent_gamma (config ag) * masks smp ! r ! j
           * min (Critic_Q1 bk (critic_target ag) next_ob next_action ! j)
                 (Critic_Q2 bk (critic_target ag) next_ob next_action ! j))"

text \<open>A replay draw of one transition, and noise draws that are all 5.\<close>

definition ex_samples :: samples where
  "ex_samples =
     \<lparr>observations = [[0]], actions = [[0]], next_observations = [[0]],
      rewards = [[1]], masks = [[1]]\<rparr>"

definition ex_noise :: "nat \<Rightarrow> nat \<Rightarrow> real" where
  "ex_noise r c = 5"

text \<open>What iteration \<open>i\<close> of \<^verbatim>\<open>learn\<close> is expected to do to the parameters: always a critic
  step; an actor step followed by the polyak update exactly when \<open>i % policy_delay == 0\<close>.\<close>

definition iteration_events :: "int \<Rightarrow> nat \<Rightarrow> event list" where
  "iteration_events d i =
     CriticOptimizerStep # (if int i mod d = 0 then [ActorOptimizerStep, PolyakUpdateTarget] else [])"

text \<open>Both optimizers refer to the online networks.\<close>

definition optimizers_online :: "'o Agent \<Rightarrow> bool" where
  "optimizers_online ag \<longleftrightarrow>
     param_groups (actor_optimizer ag) = Online \<and> param_groups (critic_optimizer ag) = Online"

section \<open>The rollout, step by step\<close>

text \<open>The completed flags after a sequence of done-batches, starting from \<open>cs\<close>: what the
  runner's marking does step after step.\<close>

fun completes_after :: "bool list \<Rightarrow> bool list list \<Rightarrow> error + bool list" where
  "completes_after cs [] = Inr cs"
| "completes_after cs (d # ds) =
     (case mark_completed (enumerate 0 d) cs of
        Inl e \<Rightarrow> Inl e
      | Inr cs' \<Rightarrow> completes_after cs' ds)"

text \<open>Every one of the \<open>N\<close> environment instances is marked completed after the first \<open>k\<close>
  steps of the recorded done-flags.\<close>

definition all_completed_after :: "nat \<Rightarrow> bool list list \<Rightarrow> nat \<Rightarrow> bool" where
  "all_completed_after N dones k \<longleftrightarrow>
     (case completes_after (replicate N False) (take k dones) of
        Inl e \<Rightarrow> False
      | Inr cs \<Rightarrow> list_all (\<lambda>c. c) cs)"

text \<open>A single environment instance that reports done at its third step, and an agent
  that always answers with the same tensor action under the key \<^verbatim>\<open>action\<close>.\<close>

definition ex_env :: "nat env_iface" where
  "ex_env =
     \<lparr>num_env = 1,
      env_reset = (\<lambda>s. (TimeStep [0], 0)),
      env_step = (\<lambda>a s. Inr ((TimeStep [0], [1], [Suc s = 3], PyDict), Suc s))\<rparr>"

definition ex_policy :: "unit agent_iface" where
  "ex_policy =
     \<lparr>agent_reset = (\<lambda>a. a),
      agent_choose_action = (\<lambda>x kwargs a. Inr ([''action'' \<mapsto> PyTensor [[0]]], a))\<rparr>"

text \<open>What holds of the trajectory whenever the loop is entered: one done-batch per
  action, the completed flags are those the done-batches produce, and after no step so far
  were all instances completed.\<close>

definition run_inv :: "nat \<Rightarrow> BatchEpisode \<Rightarrow> bool" where
  "run_inv N D \<longleftrightarrow>
     length (D_dones D) = length (D_actions D) \<and>
     completes_after (replicate N False) (D_dones D) = Inr (completes D) \<and>
     (\<forall>k. 0 < k \<and> k \<le> length (D_dones D) \<longrightarrow> \<not> all_completed_after N (D_dones D) k)"

section \<open>Actor construction\<close>

lemma np_unique_single: "np_unique xs = [m] \<longleftrightarrow> set xs = {m}"
proof
  assume h: "np_unique xs = [m]"
  have "set (np_unique xs) = set xs" by (simp add: np_unique_def)
  with h show "set xs = {m}" by simp
next
  assume h: "set xs = {m}"
  have "length (np_unique xs) = card (set xs)"
    by (simp add: np_unique_def length_remdups_card_conv)
  with h have l: "length (np_unique xs) = 1" by simp
  have s: "set (np_unique xs) = {m}" using h by (simp add: np_unique_def)
  from l obtain y where y: "np_unique xs = [y]"
    by (cases "np_unique xs") auto
  with s show "np_unique xs = [m]" by simp
qed

lemma item_Inr: "item xs = Inr m \<longleftrightarrow> xs = [m]"
  by (auto simp: item_def split: list.splits)

lemma index0_singleton: "set xs = {m} \<Longrightarrow> index0 xs = Inr m"
  by (cases xs) (auto simp: index0_def)

lemma Actor_init_ok:
  assumes "symmetric_uniform sp m"
  shows "Actor_init sp fl ah = Inr \<lparr>feature_layers = fl, action_head = ah, max_action = m\<rparr>"
proof -
  from assms have h: "set (high sp) = {m}" and l: "set (low sp) = {- m}"
    by (simp_all add: symmetric_uniform_def)
  have uh: "np_unique (high sp) = [m]" using h by (simp add: np_unique_single)
  have ul: "np_unique (low sp) = [- m]" using l by (simp add: np_unique_single)
  show ?thesis
    by (simp add: Actor_init_def uh ul item_def index0_singleton [OF h])
qed

lemma Actor_init_Inr:
  assumes "Actor_init sp fl ah = Inr a"
  shows "\<exists>m. symmetric_uniform sp m"
proof -
  from assms have l1: "length (np_unique (high sp)) = 1"
    by (auto simp: Actor_init_def split: if_splits)
  then obtain h where uh: "np_unique (high sp) = [h]" by (cases "np_unique (high sp)") auto
  from assms l1 obtain l where il: "item (np_unique (low sp)) = Inr l"
    by (auto simp: Actor_init_def split: if_splits sum.splits)
  then have ul: "np_unique (low sp) = [l]" by (simp add: item_Inr)
  from assms l1 il uh have "- l = h"
    by (auto simp: Actor_init_def item_def split: if_splits sum.splits)
  with uh ul show ?thesis
    unfolding symmetric_uniform_def np_unique_single by auto
qed

text \<open>
  Claim C9. Constructing an Actor succeeds, with \<open>max_action\<close> the common upper bound,
  when the action space is symmetric and uniformly bounded across its dimensions; when it
  is not, construction aborts with an error.
\<close>

theorem Actor_init_precondition:
  "(symmetric_uniform sp m \<longrightarrow>
      Actor_init sp fl ah = Inr \<lparr>feature_layers = fl, action_head = ah, max_action = m\<rparr>)
   \<and> ((\<nexists>m. symmetric_uniform sp m) \<longrightarrow> (\<exists>e. Actor_init sp fl ah = Inl e))"
proof (intro conjI impI)
  assume "symmetric_uniform sp m"
  then show "Actor_init sp fl ah = Inr \<lparr>feature_layers = fl, action_head = ah, max_action = m\<rparr>"
    by (rule Actor_init_ok)
next
  assume n: "\<nexists>m. symmetric_uniform sp m"
  show "\<exists>e. Actor_init sp fl ah = Inl e"
  proof (cases "Actor_init sp fl ah")
    case (Inl e) then show ?thesis by blast
  next
    case (Inr a) with Actor_init_Inr n show ?thesis by blast
  qed
qed

theorem Actor_init_precondition_witness:
  "symmetric_uniform \<lparr>low = [-2, -2], high = [2, 2]\<rparr> 2
   \<and> Actor_init \<lparr>low = [-2, -2], high = [2, 2]\<rparr> [] ([], [])
       = Inr \<lparr>feature_layers = [], action_head = ([], []), max_action = 2\<rparr>
   \<and> (\<nexists>m. symmetric_uniform \<lparr>low = [-2, -1], high = [2, 2]\<rparr> m)
   \<and> (\<exists>e. Actor_init \<lparr>low = [-2, -1], high = [2, 2]\<rparr> [] ([], []) = Inl e)"
proof -
  have a: "symmetric_uniform \<lparr>low = [-2, -2], high = [2, 2]\<rparr> 2"
    by (simp add: symmetric_uniform_def)
  have b: "\<nexists>m. symmetric_uniform \<lparr>low = [-2, -1], high = [2, 2]\<rparr> m"
    by (auto simp: symmetric_uniform_def)
  from a b
    Actor_init_precondition [of "\<lparr>low = [-2, -2], high = [2, 2]\<rparr>" 2 "[]" "([], [])"]
    Actor_init_precondition [of "\<lparr>low = [-2, -1], high = [2, 2]\<rparr>" 0 "[]" "([], [])"]
  show ?thesis by blast
qed

section \<open>Polyak averaging and construction of the agent\<close>

lemma compatible_length: "compatible sd own \<Longrightarrow> length sd = length own"
  unfolding compatible_def by (metis length_map)

lemma map_snd_keyed: "map snd (keyed name ls) = ls"
  unfolding keyed_def by (simp add: map_snd_enumerate comp_def case_prod_unfold)

lemma map_fst_keyed: "map fst (keyed name ls) = map (Pair name) [0..<length ls]"
  unfolding keyed_def
  by (rule nth_equalityI) (simp_all add: nth_enumerate_eq case_prod_unfold)

lemma length_keyed: "length (keyed name ls) = length ls"
  by (simp add: keyed_def)

lemma Actor_state_dict_values: "map snd (Actor_state_dict a) = Actor_parameters a"
  by (simp add: Actor_state_dict_def Actor_parameters_def map_snd_keyed)

lemma Critic_state_dict_values: "map snd (Critic_state_dict c) = Critic_parameters c"
  by (simp add: Critic_state_dict_def Critic_parameters_def map_snd_keyed)

lemma Actor_parameters_assign: "ls \<noteq> [] \<Longrightarrow> Actor_parameters (Actor_assign a ls) = ls"
  by (simp add: Actor_parameters_def Actor_assign_def)

lemma Critic_parameters_assign:
  assumes "length ls = length (Critic_parameters c)"
  shows "Critic_parameters (Critic_assign c ls) = ls"
proof -
  define n1 where "n1 = length (first_feature_layers c)"
  define n2 where "n2 = length (second_feature_layers c)"
  from assms have len: "length ls = Suc n1 + Suc n2"
    by (simp add: Critic_parameters_def n1_def n2_def)
  have a: "ls = take n1 ls @ ls ! n1 # drop (Suc n1) ls"
    using len by (simp add: id_take_nth_drop)
  define r where "r = drop (Suc n1) ls"
  have lr: "length r = Suc n2" using len by (simp add: r_def)
  have b: "r = take n2 r @ [r ! n2]"
    using lr by (metis lessI take_Suc_conv_app_nth take_all order_refl)
  have c: "r ! n2 = ls ! (Suc n1 + n2)" using len by (simp add: r_def)
  have "Critic_parameters (Critic_assign c ls) = take n1 ls @ [ls ! n1] @ take n2 r @ [ls ! (Suc n1 + n2)]"
    by (simp add: Critic_parameters_def Critic_assign_def Let_def n1_def n2_def r_def)
  also have "\<dots> = take n1 ls @ ls ! n1 # r" using b c by simp
  also have "\<dots> = ls" using a r_def by simp
  finally show ?thesis .
qed

lemma zip_update_same_length: "length ps = length ts \<Longrightarrow> zip_update f ps ts = map2 f ps ts"
  by (simp add: zip_update_def)

lemma length_zip_update: "length (zip_update f ps ts) = length ts"
  by (simp add: zip_update_def)

lemma mix_one: "length s = length t \<Longrightarrow> mix 1 s t = t"
  unfolding mix_def by (induction s t rule: list_induct2) auto

lemma mix_zero: "length s = length t \<Longrightarrow> mix 0 s t = s"
  unfolding mix_def by (induction s t rule: list_induct2) auto

lemma mix_nth: "length s = length t \<Longrightarrow> k < length t \<Longrightarrow> mix p s t ! k = p * t ! k + (1 - p) * s ! k"
  by (simp add: mix_def)

lemma length_mix: "length s = length t \<Longrightarrow> length (mix p s t) = length t"
  by (simp add: mix_def)

lemma same_shapes_map: "same_shapes ps ts \<longleftrightarrow> map shape_of ps = map shape_of ts"
proof -
  have "list_all2 (=) (map shape_of ps) (map shape_of ts) \<longleftrightarrow> same_shapes ps ts"
    unfolding same_shapes_def by (simp add: list.rel_map)
  then show ?thesis by (simp add: list.rel_eq)
qed

lemma same_shapes_length: "same_shapes ps ts \<Longrightarrow> length ps = length ts"
  unfolding same_shapes_def by (rule list_all2_lengthD)

lemma polyak_one: "same_shapes ps ts \<Longrightarrow> map2 (polyak_linear 1) ps ts = ts"
  unfolding same_shapes_def
  by (induction rule: list_all2_induct) (simp_all add: shape_of_def polyak_linear_def mix_one)

lemma polyak_zero: "same_shapes ps ts \<Longrightarrow> map2 (polyak_linear 0) ps ts = ps"
  unfolding same_shapes_def
  by (induction rule: list_all2_induct) (simp_all add: shape_of_def polyak_linear_def mix_zero)

lemma tensors_polyak:
  "same_shapes ps ts \<Longrightarrow>
     tensors (map2 (polyak_linear p) ps ts) = map2 (mix p) (tensors ps) (tensors ts)"
  unfolding same_shapes_def
  by (induction rule: list_all2_induct) (simp_all add: polyak_linear_def tensors_def)

lemma tensors_same_length:
  "same_shapes ps ts \<Longrightarrow> list_all2 (\<lambda>s t. length s = length t) (tensors ps) (tensors ts)"
  unfolding same_shapes_def
  by (induction rule: list_all2_induct) (simp_all add: shape_of_def tensors_def)

lemma polyak_tensors_nth:
  assumes s: "same_shapes ps ts" and i: "i < length (tensors ts)" and k: "k < length (tensors ts ! i)"
  shows "tensors (map2 (polyak_linear p) ps ts) ! i ! k
           = p * tensors ts ! i ! k + (1 - p) * tensors ps ! i ! k"
proof -
  note a = tensors_same_length [OF s]
  have l: "length (tensors ps) = length (tensors ts)"
    using a by (rule list_all2_lengthD)
  have li: "length (tensors ps ! i) = length (tensors ts ! i)"
    using list_all2_nthD2 [OF a i] .
  have "tensors (map2 (polyak_linear p) ps ts) ! i = mix p (tensors ps ! i) (tensors ts ! i)"
    using i l by (simp add: tensors_polyak [OF s])
  then show ?thesis using li k by (simp add: mix_nth)
qed


lemma Actor_parameters_nonempty: "Actor_parameters a \<noteq> []"
  by (simp add: Actor_parameters_def)

lemma length_map2_polyak: "length ps = length ts \<Longrightarrow> length (map2 f ps ts) = length ts"
  by simp

lemma polyak_relation_map2:
  assumes s: "same_shapes ps ts"
  shows "polyak_relation p ps ts (map2 (polyak_linear p) ps ts)"
proof -
  note a = tensors_same_length [OF s]
  have l: "length (tensors ps) = length (tensors ts)" using a by (rule list_all2_lengthD)
  have "map length (map2 (mix p) (tensors ps) (tensors ts)) = map length (tensors ts)"
  proof (rule nth_equalityI)
    show "length (map length (map2 (mix p) (tensors ps) (tensors ts))) = length (map length (tensors ts))"
      using l by simp
  next
    fix i assume "i < length (map length (map2 (mix p) (tensors ps) (tensors ts)))"
    then have i: "i < length (tensors ts)" using l by simp
    have "length (tensors ps ! i) = length (tensors ts ! i)" using list_all2_nthD2 [OF a i] .
    then show "map length (map2 (mix p) (tensors ps) (tensors ts)) ! i = map length (tensors ts) ! i"
      using i l by (simp add: length_mix)
  qed
  then have "map length (tensors (map2 (polyak_linear p) ps ts)) = map length (tensors ts)"
    by (simp add: tensors_polyak [OF s])
  then show ?thesis
    unfolding polyak_relation_def using polyak_tensors_nth [OF s] by blast
qed

lemma polyak_actor_target:
  assumes s: "same_shapes (Actor_parameters (actor ag)) (Actor_parameters (actor_target ag))"
  shows "Actor_parameters (actor_target (polyak_update_target ag))
           = map2 (polyak_linear (agent_polyak (config ag)))
               (Actor_parameters (actor ag)) (Actor_parameters (actor_target ag))"
proof -
  have l: "length (Actor_parameters (actor ag)) = length (Actor_parameters (actor_target ag))"
    using s by (rule same_shapes_length)
  have n: "map2 (polyak_linear (agent_polyak (config ag)))
               (Actor_parameters (actor ag)) (Actor_parameters (actor_target ag)) \<noteq> []"
    using l Actor_parameters_nonempty [of "actor_target ag"] by (metis length_map2_polyak length_0_conv)
  show ?thesis
    by (simp add: polyak_update_target_def Let_def zip_update_same_length [OF l]
        Actor_parameters_assign [OF n])
qed

lemma polyak_critic_target:
  assumes s: "same_shapes (Critic_parameters (critic ag)) (Critic_parameters (critic_target ag))"
  shows "Critic_parameters (critic_target (polyak_update_target ag))
           = map2 (polyak_linear (agent_polyak (config ag)))
               (Critic_parameters (critic ag)) (Critic_parameters (critic_target ag))"
proof -
  have l: "length (Critic_parameters (critic ag)) = length (Critic_parameters (critic_target ag))"
    using s by (rule same_shapes_length)
  have n: "length (map2 (polyak_linear (agent_polyak (config ag)))
               (Critic_parameters (critic ag)) (Critic_parameters (critic_target ag)))
            = length (Critic_parameters (critic_target ag))"
    using l by simp
  show ?thesis
    by (simp add: polyak_update_target_def Let_def zip_update_same_length [OF l]
        Critic_parameters_assign [OF n])
qed

text \<open>
  Claim C4. \<^verbatim>\<open>polyak_update_target\<close> sets every entry of every parameter tensor of both
  target networks to \<open>p * target + (1 - p) * source\<close>, with \<open>p\<close> the configured
  coefficient. For \<open>p = 1\<close> the target parameters are unchanged, for \<open>p = 0\<close> they equal
  the source parameters. Source and target network have the same architecture.
\<close>

theorem polyak_update_target_convex:
  assumes sa: "same_shapes (Actor_parameters (actor ag)) (Actor_parameters (actor_target ag))"
      and sc: "same_shapes (Critic_parameters (critic ag)) (Critic_parameters (critic_target ag))"
  shows "polyak_relation (agent_polyak (config ag)) (Actor_parameters (actor ag))
           (Actor_parameters (actor_target ag))
           (Actor_parameters (actor_target (polyak_update_target ag)))
       \<and> polyak_relation (agent_polyak (config ag)) (Critic_parameters (critic ag))
           (Critic_parameters (critic_target ag))
           (Critic_parameters (critic_target (polyak_update_target ag)))
       \<and> (agent_polyak (config ag) = 1 \<longrightarrow>
           Actor_parameters (actor_target (polyak_update_target ag)) = Actor_parameters (actor_target ag)
         \<and> Critic_parameters (critic_target (polyak_update_target ag)) = Critic_parameters (critic_target ag))
       \<and> (agent_polyak (config ag) = 0 \<longrightarrow>
           Actor_parameters (actor_target (polyak_update_target ag)) = Actor_parameters (actor ag)
         \<and> Critic_parameters (critic_target (polyak_update_target ag)) = Critic_parameters (critic ag))"
proof -
  have 1: "polyak_relation (agent_polyak (config ag)) (Actor_parameters (actor ag))
           (Actor_parameters (actor_target ag))
           (Actor_parameters (actor_target (polyak_update_target ag)))"
    unfolding polyak_actor_target [OF sa] using sa by (rule polyak_relation_map2)
  have 2: "polyak_relation (agent_polyak (config ag)) (Critic_parameters (critic ag))
           (Critic_parameters (critic_target ag))
           (Critic_parameters (critic_target (polyak_update_target ag)))"
    unfolding polyak_critic_target [OF sc] using sc by (rule polyak_relation_map2)
  have 3: "agent_polyak (config ag) = 1 \<longrightarrow>
           Actor_parameters (actor_target (polyak_update_target ag)) = Actor_parameters (actor_target ag)
         \<and> Critic_parameters (critic_target (polyak_update_target ag)) = Critic_parameters (critic_target ag)"
    by (simp add: polyak_actor_target [OF sa] polyak_critic_target [OF sc]
        polyak_one [OF sa] polyak_one [OF sc])
  have 4: "agent_polyak (config ag) = 0 \<longrightarrow>
           Actor_parameters (actor_target (polyak_update_target ag)) = Actor_parameters (actor ag)
         \<and> Critic_parameters (critic_target (polyak_update_target ag)) = Critic_parameters (critic ag)"
    by (simp add: polyak_actor_target [OF sa] polyak_critic_target [OF sc]
        polyak_zero [OF sa] polyak_zero [OF sc])
  from 1 2 3 4 show ?thesis by blast
qed

lemma ex_same_shapes:
  "same_shapes (Actor_parameters (actor (ex_agent_polyak p)))
     (Actor_parameters (actor_target (ex_agent_polyak p)))"
  "same_shapes (Critic_parameters (critic (ex_agent_polyak p)))
     (Critic_parameters (critic_target (ex_agent_polyak p)))"
  by (simp_all add: ex_agent_polyak_def ex_agent_def ex_actor_def ex_actor_blank_def ex_critic_def
      ex_critic_blank_def same_shapes_def Actor_parameters_def Critic_parameters_def shape_of_def)

theorem polyak_update_target_convex_witness:
  "same_shapes (Actor_parameters (actor (ex_agent_polyak 1)))
     (Actor_parameters (actor_target (ex_agent_polyak 1)))
   \<and> same_shapes (Critic_parameters (critic (ex_agent_polyak 0)))
     (Critic_parameters (critic_target (ex_agent_polyak 0)))
   \<and> Actor_parameters (actor_target (polyak_update_target (ex_agent_polyak 1)))
       = [([0], [0]), ([0], [0]), ([0], [0])]
   \<and> Actor_parameters (actor_target (polyak_update_target (ex_agent_polyak 0)))
       = [([1], [0]), ([1], [0]), ([1], [0])]
   \<and> Critic_parameters (critic_target (polyak_update_target (ex_agent_polyak 0)))
       = Critic_parameters ex_critic"
proof -
  have p1: "agent_polyak (config (ex_agent_polyak 1)) = 1"
    and p0: "agent_polyak (config (ex_agent_polyak 0)) = 0"
    by (simp_all add: ex_agent_polyak_def)
  have v: "Actor_parameters (actor_target (ex_agent_polyak 1)) = [([0], [0]), ([0], [0]), ([0], [0])]"
    "Actor_parameters (actor (ex_agent_polyak 0)) = [([1], [0]), ([1], [0]), ([1], [0])]"
    "critic (ex_agent_polyak 0) = ex_critic"
    by (simp_all add: ex_agent_polyak_def ex_agent_def ex_actor_def ex_actor_blank_def Actor_parameters_def)
  from polyak_update_target_convex [OF ex_same_shapes [of 1]] p1
  have a: "Actor_parameters (actor_target (polyak_update_target (ex_agent_polyak 1)))
             = Actor_parameters (actor_target (ex_agent_polyak 1))"
    by blast
  from polyak_update_target_convex [OF ex_same_shapes [of 0]] p0
  have b: "Actor_parameters (actor_target (polyak_update_target (ex_agent_polyak 0)))
             = Actor_parameters (actor (ex_agent_polyak 0))"
    and c: "Critic_parameters (critic_target (polyak_update_target (ex_agent_polyak 0)))
             = Critic_parameters (critic (ex_agent_polyak 0))"
    by blast+
  show ?thesis
  proof (intro conjI)
    show "same_shapes (Actor_parameters (actor (ex_agent_polyak 1)))
            (Actor_parameters (actor_target (ex_agent_polyak 1)))"
      by (rule ex_same_shapes)
    show "same_shapes (Critic_parameters (critic (ex_agent_polyak 0)))
            (Critic_parameters (critic_target (ex_agent_polyak 0)))"
      by (rule ex_same_shapes)
    show "Actor_parameters (actor_target (polyak_update_target (ex_agent_polyak 1)))
            = [([0], [0]), ([0], [0]), ([0], [0])]"
      using a v by simp
    show "Actor_parameters (actor_target (polyak_update_target (ex_agent_polyak 0)))
            = [([1], [0]), ([1], [0]), ([1], [0])]"
      using b v by simp
    show "Critic_parameters (critic_target (polyak_update_target (ex_agent_polyak 0)))
            = Critic_parameters ex_critic"
      using c v by simp
  qed
qed

lemma Actor_load_state_dict_parameters:
  assumes "Actor_load_state_dict a0 (Actor_state_dict a) = Inr a1"
  shows "Actor_parameters a1 = Actor_parameters a"
proof -
  from assms have "a1 = Actor_assign a0 (map snd (Actor_state_dict a))"
    by (simp add: Actor_load_state_dict_def split: if_splits)
  then show ?thesis
    by (simp add: Actor_state_dict_values Actor_parameters_assign Actor_parameters_nonempty)
qed

lemma Critic_load_state_dict_parameters:
  assumes "Critic_load_state_dict c0 (Critic_state_dict c) = Inr c1"
  shows "Critic_parameters c1 = Critic_parameters c"
proof -
  from assms have c: "compatible (Critic_state_dict c) (Critic_state_dict c0)"
    and e: "c1 = Critic_assign c0 (map snd (Critic_state_dict c))"
    by (simp_all add: Critic_load_state_dict_def split: if_splits)
  from compatible_length [OF c]
  have "length (Critic_parameters c) = length (Critic_parameters c0)"
    by (metis Critic_state_dict_values length_map)
  then show ?thesis
    by (simp add: e Critic_state_dict_values Critic_parameters_assign)
qed

text \<open>
  Claim C10. Right after construction of the agent, the parameters of the target actor
  equal those of the online actor, and the parameters of the target critic equal those of
  the online critic.
\<close>

theorem Agent_init_targets_equal:
  assumes "Agent_init bk cfg sp fr = Inr ag"
  shows "Actor_parameters (actor_target ag) = Actor_parameters (actor ag)
       \<and> Critic_parameters (critic_target ag) = Critic_parameters (critic ag)"
proof -
  from assms obtain a a0 a1 c c0 c1 where
    la: "Actor_load_state_dict a0 (Actor_state_dict a) = Inr a1" and
    lc: "Critic_load_state_dict c0 (Critic_state_dict c) = Inr c1" and
    ag: "actor ag = a" "actor_target ag = a1" "critic ag = c" "critic_target ag = c1"
    by (auto simp: Agent_init_def Let_def split: sum.splits prod.splits)
  show ?thesis
    using Actor_load_state_dict_parameters [OF la] Critic_load_state_dict_parameters [OF lc] ag
    by simp
qed

lemma ex_agent_init: "Agent_init ex_backend ex_config ex_space ex_fresh = Inr ex_agent"
  by (simp add: Agent_init_def ex_fresh_def ex_space_def Actor_init_def np_unique_def item_def index0_def
     Actor_load_state_dict_def Actor_state_dict_def keyed_def compatible_def shape_of_def Actor_assign_def
     Critic_load_state_dict_def Critic_state_dict_def Critic_assign_def ex_critic_def Critic_init_def
     ex_agent_def ex_config_def ex_backend_def ex_actor_def enumerate_eq_zip Let_def)

theorem Agent_init_targets_equal_witness:
  "Agent_init ex_backend ex_config ex_space ex_fresh = Inr ex_agent
   \<and> Actor_parameters (actor_target ex_agent) = [([1], [0]), ([1], [0]), ([1], [0])]
   \<and> Critic_parameters (critic_target ex_agent) = Critic_parameters (critic ex_agent)"
  using Agent_init_targets_equal [OF ex_agent_init] ex_agent_init
  by (simp add: ex_agent_def ex_actor_def Actor_parameters_def)

section \<open>Invariants of the agent states\<close>

lemma max_action_Actor_assign: "max_action (Actor_assign a ls) = max_action a"
  by (simp add: Actor_assign_def)

lemma critic_optimizer_step_frame:
  "env_action_space (critic_optimizer_step bk g ag) = env_action_space ag"
  "agent_max_action (critic_optimizer_step bk g ag) = agent_max_action ag"
  "actor (critic_optimizer_step bk g ag) = actor ag"
  "actor_target (critic_optimizer_step bk g ag) = actor_target ag"
  "config (critic_optimizer_step bk g ag) = config ag"
  "total_timestep (critic_optimizer_step bk g ag) = total_timestep ag"
  by (simp_all add: critic_optimizer_step_def Let_def case_prod_unfold split: module_ref.splits)

lemma actor_optimizer_step_frame:
  "env_action_space (actor_optimizer_step bk g ag) = env_action_space ag"
  "agent_max_action (actor_optimizer_step bk g ag) = agent_max_action ag"
  "max_action (actor (actor_optimizer_step bk g ag)) = max_action (actor ag)"
  "max_action (actor_target (actor_optimizer_step bk g ag)) = max_action (actor_target ag)"
  "config (actor_optimizer_step bk g ag) = config ag"
  "total_timestep (actor_optimizer_step bk g ag) = total_timestep ag"
  by (simp_all add: actor_optimizer_step_def Let_def case_prod_unfold max_action_Actor_assign
      split: module_ref.splits)

lemma polyak_update_target_frame:
  "env_action_space (polyak_update_target ag) = env_action_space ag"
  "agent_max_action (polyak_update_target ag) = agent_max_action ag"
  "max_action (actor (polyak_update_target ag)) = max_action (actor ag)"
  "max_action (actor_target (polyak_update_target ag)) = max_action (actor_target ag)"
  "config (polyak_update_target ag) = config ag"
  "total_timestep (polyak_update_target ag) = total_timestep ag"
  by (simp_all add: polyak_update_target_def Let_def max_action_Actor_assign)

lemmas step_frames = critic_optimizer_step_frame actor_optimizer_step_frame polyak_update_target_frame

lemma learn_body_bounds:
  "bounds_agree sp (fst st) \<Longrightarrow> bounds_agree sp (fst (learn_body bk replay noise i st))"
  by (simp add: learn_body_def Let_def case_prod_unfold bounds_agree_def step_frames)

lemma learn_body_total_timestep:
  "total_timestep (fst (learn_body bk replay noise i st)) = total_timestep (fst st)"
  by (simp add: learn_body_def Let_def case_prod_unfold step_frames)

lemma learn_loop_bounds:
  "bounds_agree sp (fst st) \<Longrightarrow> bounds_agree sp (fst (learn_loop bk replay noise is st))"
proof (induction "is" arbitrary: st)
  case Nil then show ?case by simp
next
  case (Cons i "is")
  obtain ag r where b: "learn_body bk replay noise i st = (ag, r)" by (cases "learn_body bk replay noise i st")
  from learn_body_bounds [OF Cons.prems, of bk replay noise i] b have ba: "bounds_agree sp ag" by simp
  show ?case
  proof (cases r)
    case (Inl e) with b ba show ?thesis by simp
  next
    case (Inr lc)
    with b Cons.IH [of "(ag, lc)"] ba show ?thesis by simp
  qed
qed

lemma learn_loop_total_timestep:
  "total_timestep (fst (learn_loop bk replay noise is st)) = total_timestep (fst st)"
proof (induction "is" arbitrary: st)
  case Nil then show ?case by simp
next
  case (Cons i "is")
  obtain ag r where b: "learn_body bk replay noise i st = (ag, r)" by (cases "learn_body bk replay noise i st")
  from learn_body_total_timestep [of bk replay noise i st] b
  have ba: "total_timestep ag = total_timestep (fst st)" by simp
  show ?case
  proof (cases r)
    case (Inl e) with b ba show ?thesis by simp
  next
    case (Inr lc)
    with b Cons.IH [of "(ag, lc)"] ba show ?thesis by simp
  qed
qed

lemma learn_bounds:
  assumes "bounds_agree sp ag"
  shows "bounds_agree sp (fst (learn bk replay noise T ag))"
proof -
  define lc0 where "lc0 = lc_empty"
  obtain ag1 r where l: "learn_loop bk replay noise [0..<nat T] (ag, lc0) = (ag1, r)"
    by (cases "learn_loop bk replay noise [0..<nat T] (ag, lc0)")
  from learn_loop_bounds [of sp "(ag, lc0)" bk replay noise "[0..<nat T]"] assms l
  have b: "bounds_agree sp ag1" by simp
  then have b2: "bounds_agree sp (ag1\<lparr>total_timestep := tt\<rparr>)" for tt
    by (simp add: bounds_agree_def)
  show ?thesis
    using l b b2 unfolding learn_def lc0_def [symmetric] Let_def
    by (auto split: sum.splits option.splits)
qed

lemma Actor_init_max_action:
  assumes "Actor_init sp fl ah = Inr a"
  shows "symmetric_uniform sp (max_action a)" 
proof -
  from Actor_init_Inr [OF assms] obtain m where m: "symmetric_uniform sp m" by blast
  from Actor_init_ok [OF m, of fl ah] assms have "max_action a = m" by auto
  with m show ?thesis by simp
qed

lemma Actor_init_index0:
  assumes "Actor_init sp fl ah = Inr a"
  shows "index0 (high sp) = Inr (max_action a)" 
  using Actor_init_max_action [OF assms] by (simp add: symmetric_uniform_def index0_singleton)

lemma Actor_load_state_dict_max_action:
  "Actor_load_state_dict a0 sd = Inr a1 \<Longrightarrow> max_action a1 = max_action a0"
  by (auto simp: Actor_load_state_dict_def max_action_Actor_assign split: if_splits)

lemma Agent_init_bounds:
  assumes "Agent_init bk cfg sp fr = Inr ag"
  shows "bounds_agree sp ag"
proof -
  from assms obtain a a0 a1 h0 where
    ia: "Actor_init sp (fst (actor_layers fr)) (snd (actor_layers fr)) = Inr a" and
    ia0: "Actor_init sp (fst (actor_target_layers fr)) (snd (actor_target_layers fr)) = Inr a0" and
    la: "Actor_load_state_dict a0 (Actor_state_dict a) = Inr a1" and
    h0: "index0 (high sp) = Inr h0" and
    ag: "actor ag = a" "actor_target ag = a1" "agent_max_action ag = h0" "env_action_space ag = sp"
    by (auto simp: Agent_init_def Let_def split: sum.splits)
  from Actor_init_index0 [OF ia] h0 have 1: "max_action a = h0" by simp
  from Actor_init_index0 [OF ia0] h0 have 2: "max_action a0 = h0" by simp
  from Actor_load_state_dict_max_action [OF la] 2 have 3: "max_action a1 = h0" by simp
  from Actor_init_max_action [OF ia] 1 have "symmetric_uniform sp h0" by simp
  with 1 3 ag show ?thesis by (simp add: bounds_agree_def)
qed

lemma reachable_bounds: "reachable bk sp ag \<Longrightarrow> bounds_agree sp ag"
proof (induction rule: reachable.induct)
  case (constructed cfg fr ag)
  then show ?case by (rule Agent_init_bounds)
next
  case (learning ag replay noise "is" lc)
  from learn_loop_bounds [of sp "(ag, lc)" bk replay noise "is"] learning.IH
  show ?case by simp
next
  case (learned ag replay noise T)
  then show ?case by (simp add: learn_bounds)
qed

section \<open>Actions stay within the bound\<close>

lemma clamp_bounded: "0 \<le> m \<Longrightarrow> - m \<le> clamp x (- m) m \<and> clamp x (- m) m \<le> m"
  by (simp add: clamp_def)

lemma tanh_scaled_bounded:
  assumes "0 \<le> (m::real)"
  shows "- m \<le> m * tanh (z::real) \<and> m * tanh z \<le> m"
proof -
  have a: "tanh z \<le> 1" using tanh_real_lt_1 [of z] by simp
  have b: "- 1 \<le> tanh z" using tanh_real_gt_neg1 [of z] by simp
  from mult_left_mono [OF a assms] have "m * tanh z \<le> m" by simp
  moreover from mult_left_mono [OF b assms] have "- m \<le> m * tanh z" by simp
  ultimately show ?thesis by simp
qed

lemma Actor_forward_bounded:
  "0 \<le> max_action a \<Longrightarrow> bounded_by (max_action a) (Actor_forward bk a x)"
  by (auto simp: bounded_by_def Actor_forward_def Let_def tanh_scaled_bounded)

lemma set_broadcast_to: "xs \<noteq> [] \<Longrightarrow> set (broadcast_to n xs) \<subseteq> set xs"
  by (cases xs) (auto simp: broadcast_to_def)

lemma np_clip_bounded:
  assumes m: "0 \<le> m" and lo: "set a_min = {- m}" and hi: "set a_max = {m}"
    and c: "np_clip a a_min a_max = Inr r"
  shows "bounded_by m r"
proof -
  from c obtain n where
    r: "r = map (\<lambda>(x, lo, hi). clamp x lo hi)
              (zip (broadcast_to n a) (zip (broadcast_to n a_min) (broadcast_to n a_max)))"
    by (auto simp: np_clip_def split: sum.splits)
  have ne: "a_min \<noteq> []" "a_max \<noteq> []" using lo hi by auto
  show ?thesis
    unfolding bounded_by_def
  proof
    fix v assume "v \<in> set r"
    then obtain x l h where
      z: "(x, l, h) \<in> set (zip (broadcast_to n a) (zip (broadcast_to n a_min) (broadcast_to n a_max)))"
      and v: "v = clamp x l h"
      unfolding r by auto
    from z have "(l, h) \<in> set (zip (broadcast_to n a_min) (broadcast_to n a_max))"
      by (rule set_zip_rightD)
    then have "l \<in> set (broadcast_to n a_min)" "h \<in> set (broadcast_to n a_max)"
      by (auto dest: set_zip_leftD set_zip_rightD)
    with set_broadcast_to [OF ne(1), of n] set_broadcast_to [OF ne(2), of n] lo hi
    have "l = - m" "h = m" by auto
    with v clamp_bounded [OF m, of x] show "- m \<le> v \<and> v \<le> m" by simp
  qed
qed

lemma symmetric_uniform_nonneg:
  assumes "symmetric_uniform sp m" and "lower_le_upper sp"
  shows "0 \<le> m"
proof -
  from assms(1) have h: "set (high sp) = {m}" and l: "set (low sp) = {- m}"
    by (simp_all add: symmetric_uniform_def)
  from l obtain x xs where lx: "low sp = x # xs" by (cases "low sp") auto
  from assms(2) lx obtain y ys where hy: "high sp = y # ys" and le: "x \<le> y"
    by (auto simp: lower_le_upper_def list_all2_Cons1)
  from lx l have "x = - m" by auto
  moreover from hy h have "y = m" by auto
  ultimately show ?thesis using le by simp
qed

lemma choose_action_bounded:
  assumes b: "bounds_agree sp ag" and m: "0 \<le> agent_max_action ag"
    and c: "choose_action bk ag x kwargs noise = Inr out"
  shows "\<exists>a. out = [''raw_action'' \<mapsto> PyArray a] \<and> bounded_by (agent_max_action ag) a"
proof -
  from b have su: "symmetric_uniform (env_action_space ag) (agent_max_action ag)"
    and ma: "max_action (actor ag) = agent_max_action ag"
    by (simp_all add: bounds_agree_def)
  from c obtain obs mode where ob: "get_observation x = Inr obs" and md: "kwargs ''mode'' = Some mode"
    by (auto simp: choose_action_def Let_def split: sum.splits option.splits)
  show ?thesis
  proof (cases "mode = PyStr ''train''")
    case True
    with c ob md obtain a where
      cl: "np_clip (map2 (+) (Actor_forward bk (actor ag) obs)
                      (map noise [0..<length (Actor_forward bk (actor ag) obs)]))
             (low (env_action_space ag)) (high (env_action_space ag)) = Inr a"
      and o: "out = [''raw_action'' \<mapsto> PyArray a]"
      by (auto simp: choose_action_def Let_def split: sum.splits)
    from su have "set (low (env_action_space ag)) = {- agent_max_action ag}"
      "set (high (env_action_space ag)) = {agent_max_action ag}"
      by (simp_all add: symmetric_uniform_def)
    from np_clip_bounded [OF m this cl] o show ?thesis by blast
  next
    case False
    with c ob md have o: "out = [''raw_action'' \<mapsto> PyArray (Actor_forward bk (actor ag) obs)]"
      by (auto simp: choose_action_def Let_def)
    from Actor_forward_bounded [of "actor ag" bk obs] m ma
    have "bounded_by (agent_max_action ag) (Actor_forward bk (actor ag) obs)" by simp
    with o show ?thesis by blast
  qed
qed

lemma next_actions_bounded:
  assumes m: "0 \<le> agent_max_action ag"
  shows "\<forall>row \<in> set (next_actions_of bk ag next_obs noise). bounded_by (agent_max_action ag) row"
  using clamp_bounded [OF m]
  by (auto simp: next_actions_of_def Let_def tmap_def bounded_by_def)

text \<open>
  Claim C1. For every agent state that can arise over an action space whose lower bounds
  do not exceed its upper bounds, every action returned by \<^verbatim>\<open>choose_action\<close> (in train mode
  after noise and clipping, in any other mode by the scaled hyperbolic tangent alone) and
  every next action computed inside \<^verbatim>\<open>learn\<close> lies in \<open>[-max_action, max_action]\<close>
  entry by entry, where \<open>max_action\<close> is the common upper bound of the action space.
\<close>

theorem actions_within_max_action:
  assumes r: "reachable bk sp ag" and v: "lower_le_upper sp"
  shows "symmetric_uniform sp (agent_max_action ag)
       \<and> (\<forall>x kwargs noise out. choose_action bk ag x kwargs noise = Inr out \<longrightarrow>
            (\<exists>a. out = [''raw_action'' \<mapsto> PyArray a] \<and> bounded_by (agent_max_action ag) a))
       \<and> (\<forall>next_obs noise. \<forall>row \<in> set (next_actions_of bk ag next_obs noise).
            bounded_by (agent_max_action ag) row)"
proof -
  from reachable_bounds [OF r] have b: "bounds_agree sp ag" .
  then have su: "symmetric_uniform sp (agent_max_action ag)" by (simp add: bounds_agree_def)
  from symmetric_uniform_nonneg [OF su v] have m: "0 \<le> agent_max_action ag" .
  show ?thesis
    using su choose_action_bounded [OF b m] next_actions_bounded [OF m] by blast
qed

section \<open>The regression target\<close>

lemma tmap2_length: "length (tmap2 f s t) = min (length s) (length t)"
  by (simp add: tmap2_def)

lemma tmap2_row: "r < length (tmap2 f s t) \<Longrightarrow> tmap2 f s t ! r = map2 f (s ! r) (t ! r)"
  by (simp add: tmap2_def)

lemma tmap2_nth:
  assumes "r < length (tmap2 f s t)" and "j < length (tmap2 f s t ! r)"
  shows "tmap2 f s t ! r ! j = f (s ! r ! j) (t ! r ! j)"
    and "j < length (s ! r)" and "j < length (t ! r)"
  using assms by (simp_all add: tmap2_def)

lemma tmap_nth:
  assumes "r < length t" and "j < length (t ! r)"
  shows "tmap f t ! r ! j = f (t ! r ! j)"
  using assms by (simp add: tmap_def)

lemma tmap_shape: "length (tmap f t) = length t" "r < length t \<Longrightarrow> length (tmap f t ! r) = length (t ! r)"
  by (simp_all add: tmap_def)

lemma normal_like_nth:
  assumes "r < length t" 
  shows "normal_like noise t ! r = map (noise r) [0..<length (t ! r)]"
  using assms by (simp add: normal_like_def nth_enumerate_eq)

lemma length_normal_like: "length (normal_like noise t) = length t"
  by (simp add: normal_like_def)

lemma next_actions_of_length: "length (next_actions_of bk ag next_obs noise) = length next_obs"
  by (simp add: next_actions_of_def Let_def tmap_def tmap2_def length_normal_like)

lemma next_actions_of_row:
  assumes r: "r < length next_obs"
  shows "next_actions_of bk ag next_obs noise ! r = spec_next_action bk ag (next_obs ! r) (noise r)"
proof -
  define A where "A = Actor_forward bk (actor_target ag) (next_obs ! r)"
  define c where "c = agent_target_noise_clip (config ag)"
  define m where "m = agent_max_action ag"
  have 1: "map (Actor_forward bk (actor_target ag)) next_obs ! r = A" using r by (simp add: A_def)
  have 2: "normal_like noise (map (Actor_forward bk (actor_target ag)) next_obs) ! r
             = map (noise r) [0..<length A]"
    using r by (simp add: normal_like_nth A_def)
  have "next_actions_of bk ag next_obs noise ! r
          = map (\<lambda>a. clamp a (- m) m) (map2 (+) A (map (\<lambda>e. clamp e (- c) c) (map (noise r) [0..<length A])))"
    using r 1 2 by (simp add: next_actions_of_def Let_def tmap_def tmap2_def length_normal_like c_def m_def)
  also have "\<dots> = map (\<lambda>k. clamp (A ! k + clamp (noise r k) (- c) c) (- m) m) [0..<length A]"
    by (rule nth_equalityI) simp_all
  finally show ?thesis by (simp add: spec_next_action_def A_def c_def m_def)
qed

lemma targets_of_entries:
  "length (targets_of bk ag smp noise)
      = min (length (rewards smp)) (min (length (masks smp)) (length (next_observations smp)))
   \<and> (\<forall>r < length (targets_of bk ag smp noise). \<forall>j < length (targets_of bk ag smp noise ! r).
         targets_of bk ag smp noise ! r ! j = spec_target bk ag smp noise r j)"
proof -
  define NA where "NA = next_actions_of bk ag (next_observations smp) noise"
  define Q12 where "Q12 = map2 (Critic_forward bk (critic_target ag)) (next_observations smp) NA"
  define NQ where "NQ = tmap2 min (map fst Q12) (map snd Q12)"
  define GM where "GM = tmap (\<lambda>m. agent_gamma (config ag) * m) (masks smp)"
  have T: "targets_of bk ag smp noise = tmap2 (+) (rewards smp) (tmap2 (*) GM NQ)"
    by (simp add: targets_of_def Let_def NA_def Q12_def NQ_def GM_def)
  have lNA: "length NA = length (next_observations smp)"
    by (simp add: NA_def next_actions_of_length)
  have lQ: "length Q12 = length (next_observations smp)" by (simp add: Q12_def lNA)
  have lNQ: "length NQ = length (next_observations smp)" by (simp add: NQ_def tmap2_def lQ)
  have lGM: "length GM = length (masks smp)" by (simp add: GM_def tmap_def)
  have len: "length (targets_of bk ag smp noise)
      = min (length (rewards smp)) (min (length (masks smp)) (length (next_observations smp)))"
    by (simp add: T tmap2_length lNQ lGM)
  have ent: "targets_of bk ag smp noise ! r ! j = spec_target bk ag smp noise r j"
    if r: "r < length (targets_of bk ag smp noise)" and j: "j < length (targets_of bk ag smp noise ! r)"
    for r j
  proof -
    from r len have rb: "r < length (rewards smp)" "r < length (masks smp)"
      "r < length (next_observations smp)" by simp_all
    note t1 = tmap2_nth [OF r [unfolded T] j [unfolded T]]
    have r2: "r < length (tmap2 (*) GM NQ)" using rb by (simp add: tmap2_length lNQ lGM)
    note t2 = tmap2_nth [OF r2 t1(3)]
    have g: "GM ! r ! j = agent_gamma (config ag) * masks smp ! r ! j"
      using rb t2(2) unfolding GM_def by (simp add: tmap_def)
    have r3: "r < length (tmap2 min (map fst Q12) (map snd Q12))"
      using rb by (simp add: tmap2_length lQ)
    note t3 = tmap2_nth [OF r3 t2(3) [unfolded NQ_def]]
    have na: "NA ! r = spec_next_action bk ag (next_observations smp ! r) (noise r)"
      unfolding NA_def using rb(3) by (rule next_actions_of_row)
    have q: "Q12 ! r = Critic_forward bk (critic_target ag) (next_observations smp ! r) (NA ! r)"
      using rb lNA by (simp add: Q12_def)
    have q1: "map fst Q12 ! r = Critic_Q1 bk (critic_target ag) (next_observations smp ! r) (NA ! r)"
      and q2: "map snd Q12 ! r = Critic_Q2 bk (critic_target ag) (next_observations smp ! r) (NA ! r)"
      using rb lQ q by (simp_all add: Critic_forward_def)
    have "targets_of bk ag smp noise ! r ! j
            = rewards smp ! r ! j + GM ! r ! j * NQ ! r ! j"
      using t1(1) t2(1) by (simp add: T)
    also have "NQ ! r ! j = min (map fst Q12 ! r ! j) (map snd Q12 ! r ! j)"
      using t3(1) by (simp add: NQ_def)
    finally show ?thesis
      by (simp add: g q1 q2 na spec_target_def Let_def)
  qed
  from len ent show ?thesis by blast
qed

section \<open>The small instance, evaluated\<close>

lemmas ex_defs = ex_backend_def ex_agent_def ex_actor_def ex_critic_def ex_config_def ex_space_def
  ex_samples_def ex_noise_def ex_Linear_def

lemma ex_Actor_forward: "Actor_forward ex_backend ex_actor [0] = [0]"
  by (simp add: Actor_forward_def ex_defs relu_def)

lemma ex_next_actions: "next_actions_of ex_backend ex_agent [[0]] ex_noise = [[1 / 2]]"
proof -
  have "actor_target ex_agent = ex_actor" by (simp add: ex_agent_def)
  then show ?thesis
    by (simp add: next_actions_of_def Let_def ex_Actor_forward normal_like_def tmap_def tmap2_def
      clamp_def ex_noise_def ex_agent_def ex_config_def)
qed

lemma ex_Q: "Critic_forward ex_backend ex_critic [0] [1 / 2] = ([1 / 2], [1])"
  by (simp add: Critic_forward_def Critic_Q1_def Critic_Q2_def ex_defs relu_def)

lemma ex_targets: "targets_of ex_backend ex_agent ex_samples ex_noise = [[5 / 4]]"
proof -
  have c: "critic_target ex_agent = ex_critic" by (simp add: ex_agent_def)
  have s: "next_observations ex_samples = [[0]]" "rewards ex_samples = [[1]]" "masks ex_samples = [[1]]"
    by (simp_all add: ex_samples_def)
  have g: "agent_gamma (config ex_agent) = 1 / 2" by (simp add: ex_agent_def ex_config_def)
  show ?thesis
    by (simp add: targets_of_def Let_def s ex_next_actions c ex_Q tmap_def tmap2_def g)
qed

lemma learn_body_critic_loss:
  assumes "learn_body bk replay noise i (ag, lc) = (ag', Inr lc')"
  shows "list_critic_loss lc' = list_critic_loss lc @
     [mse_loss (map fst (map2 (Critic_forward bk (critic ag)) (observations (replay i)) (actions (replay i))))
        (targets_of bk ag (replay i) (noise i))
      + mse_loss (map snd (map2 (Critic_forward bk (critic ag)) (observations (replay i)) (actions (replay i))))
        (targets_of bk ag (replay i) (noise i))]"
  using assms by (auto simp: learn_body_def Let_def case_prod_unfold split: if_splits)

section \<open>The schedule of updates\<close>

lemma step_history:
  "history (critic_optimizer_step bk g ag) = history ag @ [CriticOptimizerStep]"
  "history (actor_optimizer_step bk g ag) = history ag @ [ActorOptimizerStep]"
  "history (polyak_update_target ag) = history ag @ [PolyakUpdateTarget]"
  by (simp_all add: critic_optimizer_step_def actor_optimizer_step_def polyak_update_target_def
      Let_def case_prod_unfold split: module_ref.splits)

lemma learn_body_config: "config (fst (learn_body bk replay noise i st)) = config (fst st)"
  by (simp add: learn_body_def Let_def case_prod_unfold step_frames)

lemma learn_body_history:
  assumes "agent_policy_delay (config (fst st)) \<noteq> 0"
  shows "history (fst (learn_body bk replay noise i st))
           = history (fst st) @ iteration_events (agent_policy_delay (config (fst st))) i"
    and "\<exists>lc. snd (learn_body bk replay noise i st) = Inr lc \<and> critic_grad_norm lc \<noteq> None
           \<and> (actor_grad_norm lc = None \<longrightarrow>
                actor_grad_norm (snd st) = None \<and> int i mod agent_policy_delay (config (fst st)) \<noteq> 0)"
  using assms
  by (simp_all add: learn_body_def Let_def case_prod_unfold step_frames step_history iteration_events_def)

lemma learn_loop_history:
  assumes "agent_policy_delay (config (fst st)) = d" and "d \<noteq> 0"
  shows "history (fst (learn_loop bk replay noise is st))
           = history (fst st) @ concat (map (iteration_events d) is)
       \<and> (\<exists>lc. snd (learn_loop bk replay noise is st) = Inr lc)"
  using assms
proof (induction "is" arbitrary: st)
  case Nil then show ?case by simp
next
  case (Cons i "is")
  from Cons.prems have d: "agent_policy_delay (config (fst st)) \<noteq> 0" by simp
  obtain ag r where b: "learn_body bk replay noise i st = (ag, r)"
    by (cases "learn_body bk replay noise i st")
  from learn_body_history [OF d, of bk replay noise i] b Cons.prems
  obtain lc where r: "r = Inr lc" and h: "history ag = history (fst st) @ iteration_events d i"
    by auto
  from learn_body_config [of bk replay noise i st] b Cons.prems
  have c: "agent_policy_delay (config (fst (ag, lc))) = d" by simp
  from Cons.IH [OF c Cons.prems(2)] b r h show ?case by simp
qed

lemma learn_history:
  "history (fst (learn bk replay noise T ag))
     = history (fst (learn_loop bk replay noise [0..<nat T] (ag, lc_empty)))"
  by (simp add: learn_def Let_def split: prod.splits sum.splits option.splits)

text \<open>
  Claim C3. With a nonzero \<open>policy_delay\<close>, iteration \<open>i\<close> of \<^verbatim>\<open>learn\<close> performs one critic
  update, and an actor update followed by the polyak update exactly when
  \<open>i % policy_delay == 0\<close>. With \<open>T = 4\<close> and \<open>policy_delay = 2\<close> a call performs 2 actor
  updates, 2 polyak updates and 4 critic updates.
\<close>

theorem learn_update_schedule:
  assumes "agent_policy_delay (config ag) = d" and "d \<noteq> 0"
  shows "history (fst (learn bk replay noise T ag))
           = history ag @ concat (map (iteration_events d) [0..<nat T])
       \<and> (d = 2 \<and> T = 4 \<longrightarrow>
            (let new = drop (length (history ag)) (history (fst (learn bk replay noise T ag)))
             in count_list new ActorOptimizerStep = 2
              \<and> count_list new PolyakUpdateTarget = 2
              \<and> count_list new CriticOptimizerStep = 4))"
proof -
  from learn_loop_history [of "(ag, lc_empty)" d bk replay noise "[0..<nat T]"] assms
  have g: "history (fst (learn bk replay noise T ag))
           = history ag @ concat (map (iteration_events d) [0..<nat T])"
    by (simp add: learn_history)
  have u: "[0..<(4::nat)] = [0, 1, 2, 3]" by code_simp
  have "d = 2 \<and> T = 4 \<longrightarrow>
            (let new = drop (length (history ag)) (history (fst (learn bk replay noise T ag)))
             in count_list new ActorOptimizerStep = 2
              \<and> count_list new PolyakUpdateTarget = 2
              \<and> count_list new CriticOptimizerStep = 4)"
    unfolding g by (auto simp: u iteration_events_def Let_def)
  with g show ?thesis by blast
qed

theorem learn_update_schedule_witness:
  "agent_policy_delay (config ex_agent) = 2
   \<and> history (fst (learn ex_backend (\<lambda>i. ex_samples) (\<lambda>i. ex_noise) 4 ex_agent))
       = [CriticOptimizerStep, ActorOptimizerStep, PolyakUpdateTarget, CriticOptimizerStep,
          CriticOptimizerStep, ActorOptimizerStep, PolyakUpdateTarget, CriticOptimizerStep]"
proof -
  have d: "agent_policy_delay (config ex_agent) = 2" by (simp add: ex_agent_def ex_config_def)
  have u: "[0..<(4::nat)] = [0, 1, 2, 3]" by code_simp
  have h: "history ex_agent = []" by (simp add: ex_agent_def)
  from learn_update_schedule [OF d, of ex_backend "\<lambda>i. ex_samples" "\<lambda>i. ex_noise" 4] d
  show ?thesis by (simp add: u h iteration_events_def)
qed

section \<open>The timestep counter\<close>

lemma sint_iadd:
  assumes "iadd w T = Inr w'" and "- (2 ^ 63) \<le> sint w + T" and "sint w + T < 2 ^ 63"
  shows "sint w' = sint w + T"
proof -
  from assms(1) have r: "- (2 ^ 63) \<le> T" "T < 2 ^ 63" and w: "w' = w + word_of_int T"
    by (auto simp: iadd_def split: if_splits)
  have t: "sint (word_of_int T :: 64 word) = T"
    using r by (simp add: sint_sbintrunc' signed_take_bit_int_eq_self)
  have "sint w' = signed_take_bit 63 (sint w + sint (word_of_int T :: 64 word))"
    unfolding w by (simp add: sint_word_add)
  also have "\<dots> = sint w + T"
    unfolding t using assms(2,3) by (simp add: signed_take_bit_int_eq_self)
  finally show ?thesis .
qed

lemma learn_loop_norms:
  assumes "agent_policy_delay (config (fst st)) = d" and "d \<noteq> 0" and "is \<noteq> []"
    and "int (hd is) mod d = 0 \<or> actor_grad_norm (snd st) \<noteq> None"
  shows "\<exists>lc. snd (learn_loop bk replay noise is st) = Inr lc
            \<and> actor_grad_norm lc \<noteq> None \<and> critic_grad_norm lc \<noteq> None"
  using assms
proof (induction "is" arbitrary: st)
  case Nil then show ?case by simp
next
  case (Cons i "is")
  from Cons.prems have d: "agent_policy_delay (config (fst st)) \<noteq> 0" by simp
  obtain ag r where b: "learn_body bk replay noise i st = (ag, r)"
    by (cases "learn_body bk replay noise i st")
  from learn_body_history(2) [OF d, of bk replay noise i] b Cons.prems
  obtain lc where r: "r = Inr lc" and cn: "critic_grad_norm lc \<noteq> None"
    and an: "actor_grad_norm lc \<noteq> None"
    by auto
  from learn_body_config [of bk replay noise i st] b Cons.prems
  have c: "agent_policy_delay (config (fst (ag, lc))) = d" by simp
  show ?case
  proof (cases "is")
    case Nil
    with b r cn an show ?thesis by simp
  next
    case (Cons j js)
    then have ne: "is \<noteq> []" by simp
    from Cons.IH [OF c Cons.prems(2) ne] an b r show ?thesis by simp
  qed
qed

text \<open>
  Claim C8. After a call of \<^verbatim>\<open>learn\<close> with \<open>T \<ge> 1\<close> that returns, \<open>total_timestep\<close> is
  exactly \<open>T\<close> larger than before; the call returns whenever \<open>policy_delay\<close> is not zero;
  and the counter does not decrease, whether the call returns or raises. The counter is a
  signed 64-bit integer, taken to be non-negative with \<open>total_timestep + T\<close> in range.
\<close>

theorem learn_total_timestep:
  assumes T: "1 \<le> T" and nn: "0 \<le> sint (total_timestep ag)"
    and rep: "sint (total_timestep ag) + T < 2 ^ 63"
  shows "sint (total_timestep ag) \<le> sint (total_timestep (fst (learn bk replay noise T ag)))
       \<and> (\<forall>out. snd (learn bk replay noise T ag) = Inr out \<longrightarrow>
             sint (total_timestep (fst (learn bk replay noise T ag))) = sint (total_timestep ag) + T)
       \<and> (agent_policy_delay (config ag) \<noteq> 0 \<longrightarrow>
             (\<exists>out. snd (learn bk replay noise T ag) = Inr out))"
proof -
  obtain ag1 r where l: "learn_loop bk replay noise [0..<nat T] (ag, lc_empty) = (ag1, r)"
    by (cases "learn_loop bk replay noise [0..<nat T] (ag, lc_empty)")
  from learn_loop_total_timestep [of bk replay noise "[0..<nat T]" "(ag, lc_empty)"] l
  have tt: "total_timestep ag1 = total_timestep ag" by simp
  from T nn rep have rng: "- (2 ^ 63) \<le> T" "T < 2 ^ 63" by simp_all
  then obtain w where ia: "iadd (total_timestep ag) T = Inr w" by (simp add: iadd_def)
  from sint_iadd [OF ia] nn T rep have sw: "sint w = sint (total_timestep ag) + T" by simp
  have ne: "[0..<nat T] \<noteq> []" and hd0: "hd [0..<nat T] = 0" using T by (simp_all add: hd_upt)
  show ?thesis
  proof (cases r)
    case (Inl e)
    with l tt show ?thesis
      using learn_loop_history [of "(ag, lc_empty)" "agent_policy_delay (config ag)" bk replay noise "[0..<nat T]"]
      by (auto simp: learn_def)
  next
    case (Inr lc)
    have a: "sint (total_timestep ag) \<le> sint (total_timestep (fst (learn bk replay noise T ag)))"
      and b: "\<forall>out. snd (learn bk replay noise T ag) = Inr out \<longrightarrow>
             sint (total_timestep (fst (learn bk replay noise T ag))) = sint (total_timestep ag) + T"
      using l Inr tt ia sw T by (auto simp: learn_def Let_def split: option.splits)
    have c: "\<exists>out. snd (learn bk replay noise T ag) = Inr out"
      if d: "agent_policy_delay (config ag) \<noteq> 0"
    proof -
      from learn_loop_norms [of "(ag, lc_empty)" "agent_policy_delay (config ag)" "[0..<nat T]" bk replay noise]
        d ne hd0 l Inr
      have "actor_grad_norm lc \<noteq> None" "critic_grad_norm lc \<noteq> None" by auto
      with l Inr tt ia show ?thesis by (auto simp: learn_def Let_def)
    qed
    from a b c show ?thesis by blast
  qed
qed

theorem learn_total_timestep_witness:
  "(1::int) \<le> 4 \<and> 0 \<le> sint (total_timestep ex_agent) \<and> sint (total_timestep ex_agent) + 4 < 2 ^ 63
   \<and> agent_policy_delay (config ex_agent) \<noteq> 0
   \<and> (\<exists>out. snd (learn ex_backend (\<lambda>i. ex_samples) (\<lambda>i. ex_noise) 4 ex_agent) = Inr out)
   \<and> sint (total_timestep (fst (learn ex_backend (\<lambda>i. ex_samples) (\<lambda>i. ex_noise) 4 ex_agent))) = 4"
proof -
  have t: "total_timestep ex_agent = 0" and d: "agent_policy_delay (config ex_agent) \<noteq> 0"
    by (simp_all add: ex_agent_def ex_config_def)
  have h: "(1::int) \<le> 4" "0 \<le> sint (total_timestep ex_agent)"
    "sint (total_timestep ex_agent) + 4 < 2 ^ 63"
    by (simp_all add: t)
  from learn_total_timestep [OF h, of ex_backend "\<lambda>i. ex_samples" "\<lambda>i. ex_noise"] d h t
  show ?thesis by auto
qed

section \<open>Target networks are written by the polyak update only\<close>

lemma step_param_groups:
  "param_groups (actor_optimizer (critic_optimizer_step bk g ag)) = param_groups (actor_optimizer ag)"
  "param_groups (critic_optimizer (critic_optimizer_step bk g ag)) = param_groups (critic_optimizer ag)"
  "param_groups (actor_optimizer (actor_optimizer_step bk g ag)) = param_groups (actor_optimizer ag)"
  "param_groups (critic_optimizer (actor_optimizer_step bk g ag)) = param_groups (critic_optimizer ag)"
  "param_groups (actor_optimizer (polyak_update_target ag)) = param_groups (actor_optimizer ag)"
  "param_groups (critic_optimizer (polyak_update_target ag)) = param_groups (critic_optimizer ag)"
  by (simp_all add: critic_optimizer_step_def actor_optimizer_step_def polyak_update_target_def
      Let_def case_prod_unfold split: module_ref.splits)

lemma learn_body_online:
  "optimizers_online (fst st) \<Longrightarrow> optimizers_online (fst (learn_body bk replay noise i st))"
  by (simp add: learn_body_def Let_def case_prod_unfold optimizers_online_def step_param_groups)

lemma learn_loop_online:
  "optimizers_online (fst st) \<Longrightarrow> optimizers_online (fst (learn_loop bk replay noise is st))"
proof (induction "is" arbitrary: st)
  case Nil then show ?case by simp
next
  case (Cons i "is")
  obtain ag r where b: "learn_body bk replay noise i st = (ag, r)"
    by (cases "learn_body bk replay noise i st")
  from learn_body_online [OF Cons.prems, of bk replay noise i] b have o: "optimizers_online ag" by simp
  show ?case
  proof (cases r)
    case (Inl e) with b o show ?thesis by simp
  next
    case (Inr lc) with b Cons.IH [of "(ag, lc)"] o show ?thesis by simp
  qed
qed

lemma learn_online:
  assumes "optimizers_online ag"
  shows "optimizers_online (fst (learn bk replay noise T ag))"
proof -
  obtain ag1 r where l: "learn_loop bk replay noise [0..<nat T] (ag, lc_empty) = (ag1, r)"
    by (cases "learn_loop bk replay noise [0..<nat T] (ag, lc_empty)")
  from learn_loop_online [of "(ag, lc_empty)" bk replay noise "[0..<nat T]"] assms l
  have o: "optimizers_online ag1" by simp
  then have o2: "optimizers_online (ag1\<lparr>total_timestep := tt\<rparr>)" for tt
    by (simp add: optimizers_online_def)
  show ?thesis
    using l o o2 unfolding learn_def Let_def by (auto split: sum.splits option.splits)
qed

lemma Agent_init_online: "Agent_init bk cfg sp fr = Inr ag \<Longrightarrow> optimizers_online ag"
  by (auto simp: Agent_init_def Let_def optimizers_online_def split: sum.splits)

lemma reachable_online: "reachable bk sp ag \<Longrightarrow> optimizers_online ag"
proof (induction rule: reachable.induct)
  case (constructed cfg fr ag)
  then show ?case by (rule Agent_init_online)
next
  case (learning ag replay noise "is" lc)
  from learn_loop_online [of "(ag, lc)" bk replay noise "is"] learning.IH show ?case by simp
next
  case (learned ag replay noise T)
  then show ?case by (simp add: learn_online)
qed

lemma critic_step_targets:
  assumes "param_groups (critic_optimizer ag) = Online"
  shows "actor_target (critic_optimizer_step bk g ag) = actor_target ag"
    and "critic_target (critic_optimizer_step bk g ag) = critic_target ag"
  using assms by (simp_all add: critic_optimizer_step_def Let_def case_prod_unfold)

lemma actor_step_targets:
  assumes "param_groups (actor_optimizer ag) = Online"
  shows "actor_target (actor_optimizer_step bk g ag) = actor_target ag"
    and "critic_target (actor_optimizer_step bk g ag) = critic_target ag"
  using assms by (simp_all add: actor_optimizer_step_def Let_def case_prod_unfold)

lemma learn_body_targets:
  assumes o: "optimizers_online ag"
  shows "(agent_policy_delay (config ag) = 0 \<or> int i mod agent_policy_delay (config ag) \<noteq> 0 \<longrightarrow>
            actor_target (fst (learn_body bk replay noise i (ag, lc))) = actor_target ag
          \<and> critic_target (fst (learn_body bk replay noise i (ag, lc))) = critic_target ag)
       \<and> (agent_policy_delay (config ag) \<noteq> 0 \<and> int i mod agent_policy_delay (config ag) = 0 \<longrightarrow>
            (\<exists>ag2. actor_target ag2 = actor_target ag \<and> critic_target ag2 = critic_target ag
                 \<and> fst (learn_body bk replay noise i (ag, lc)) = polyak_update_target ag2))"
proof -
  from o have oc: "param_groups (critic_optimizer ag) = Online"
    and oa: "param_groups (actor_optimizer ag) = Online"
    by (simp_all add: optimizers_online_def)
  define g where "g = fst (clip_grad_norm bk
      (critic_backward bk (critic ag) (observations (replay i)) (actions (replay i))
         (targets_of bk ag (replay i) (noise i)))
      (agent_max_grad_norm (config ag)))"
  define ag1 where "ag1 = critic_optimizer_step bk g ag"
  have t1: "actor_target ag1 = actor_target ag" "critic_target ag1 = critic_target ag"
    unfolding ag1_def using critic_step_targets [OF oc] by simp_all
  have oa1: "param_groups (actor_optimizer ag1) = Online"
    unfolding ag1_def using oa by (simp add: step_param_groups)
  have c1: "config ag1 = config ag" unfolding ag1_def by (simp add: step_frames)
  define ga where "ga = fst (clip_grad_norm bk
      (actor_backward bk (actor ag1) (critic ag1) (observations (replay i)))
      (agent_max_grad_norm (config ag)))"
  define ag2 where "ag2 = actor_optimizer_step bk ga ag1"
  have t2: "actor_target ag2 = actor_target ag" "critic_target ag2 = critic_target ag"
    unfolding ag2_def using actor_step_targets [OF oa1] t1 by simp_all
  have f: "fst (learn_body bk replay noise i (ag, lc))
             = (if agent_policy_delay (config ag) = 0 then ag1
                else if int i mod agent_policy_delay (config ag) = 0 then polyak_update_target ag2
                else ag1)"
    by (simp add: learn_body_def Let_def case_prod_unfold ag1_def [symmetric] g_def [symmetric] c1
        ga_def [symmetric] ag2_def [symmetric])
  show ?thesis unfolding f using t1 t2 by auto
qed

text \<open>
  Claim C6. In every agent state that can arise both optimizers refer to the online
  networks, so no optimizer step changes a parameter of a target network; an iteration of
  \<^verbatim>\<open>learn\<close> leaves the target networks as they are unless it is one with
  \<open>i % policy_delay == 0\<close>, and then they change by the call of \<^verbatim>\<open>polyak_update_target\<close>
  alone.
\<close>

theorem targets_written_only_by_polyak:
  assumes "reachable bk sp ag"
  shows "optimizers_online ag
       \<and> (\<forall>g. actor_target (critic_optimizer_step bk g ag) = actor_target ag
             \<and> critic_target (critic_optimizer_step bk g ag) = critic_target ag
             \<and> actor_target (actor_optimizer_step bk g ag) = actor_target ag
             \<and> critic_target (actor_optimizer_step bk g ag) = critic_target ag)
       \<and> (\<forall>replay noise i lc.
            (agent_policy_delay (config ag) = 0 \<or> int i mod agent_policy_delay (config ag) \<noteq> 0 \<longrightarrow>
               actor_target (fst (learn_body bk replay noise i (ag, lc))) = actor_target ag
             \<and> critic_target (fst (learn_body bk replay noise i (ag, lc))) = critic_target ag)
          \<and> (agent_policy_delay (config ag) \<noteq> 0 \<and> int i mod agent_policy_delay (config ag) = 0 \<longrightarrow>
               (\<exists>ag2. actor_target ag2 = actor_target ag \<and> critic_target ag2 = critic_target ag
                 \<and> fst (learn_body bk replay noise i (ag, lc)) = polyak_update_target ag2)))"
proof -
  from reachable_online [OF assms] have o: "optimizers_online ag" .
  then have oc: "param_groups (critic_optimizer ag) = Online"
    and oa: "param_groups (actor_optimizer ag) = Online"
    by (simp_all add: optimizers_online_def)
  show ?thesis
    using o critic_step_targets [OF oc] actor_step_targets [OF oa] learn_body_targets [OF o]
    by simp
qed

lemma ex_reachable: "reachable ex_backend ex_space ex_agent"
  using ex_agent_init by (rule reachable.constructed)

theorem targets_written_only_by_polyak_witness:
  "reachable ex_backend ex_space ex_agent
   \<and> int 1 mod agent_policy_delay (config ex_agent) \<noteq> 0
   \<and> actor_target (fst (learn_body ex_backend (\<lambda>i. ex_samples) (\<lambda>i. ex_noise) 1 (ex_agent, lc_empty)))
        = ex_actor
   \<and> agent_policy_delay (config ex_agent) \<noteq> 0 \<and> int 0 mod agent_policy_delay (config ex_agent) = 0
   \<and> (\<exists>ag2. actor_target ag2 = ex_actor
         \<and> fst (learn_body ex_backend (\<lambda>i. ex_samples) (\<lambda>i. ex_noise) 0 (ex_agent, lc_empty))
              = polyak_update_target ag2)"
proof -
  have d: "agent_policy_delay (config ex_agent) = 2" by (simp add: ex_agent_def ex_config_def)
  have a: "actor_target ex_agent = ex_actor" by (simp add: ex_agent_def)
  note t = targets_written_only_by_polyak [OF ex_reachable]
  from t have 1: "actor_target (fst (learn_body ex_backend (\<lambda>i. ex_samples) (\<lambda>i. ex_noise) 1 (ex_agent, lc_empty)))
        = actor_target ex_agent"
    using d by simp
  from t have 2: "\<exists>ag2. actor_target ag2 = actor_target ex_agent \<and> critic_target ag2 = critic_target ex_agent
         \<and> fst (learn_body ex_backend (\<lambda>i. ex_samples) (\<lambda>i. ex_noise) 0 (ex_agent, lc_empty))
              = polyak_update_target ag2"
    using d by simp
  from 1 2 show ?thesis using ex_reachable d a by auto
qed

section \<open>Actions of the small instance\<close>

lemma ex_lower_le_upper: "lower_le_upper ex_space"
  by (simp add: lower_le_upper_def ex_space_def)

lemma ex_choose_action_train:
  "choose_action ex_backend ex_agent (TimeStep [0]) [''mode'' \<mapsto> PyStr ''train''] (\<lambda>k. 5)
     = Inr [''raw_action'' \<mapsto> PyArray [2]]"
proof -
  have a: "actor ex_agent = ex_actor" "env_action_space ex_agent = ex_space"
    by (simp_all add: ex_agent_def)
  show ?thesis
    by (simp add: choose_action_def get_observation_def Let_def a ex_Actor_forward np_clip_def
        broadcast_shape_def broadcast_to_def clamp_def ex_space_def)
qed

lemma ex_choose_action_eval:
  "choose_action ex_backend ex_agent (TimeStep [0]) [''mode'' \<mapsto> PyStr ''eval''] (\<lambda>k. 5)
     = Inr [''raw_action'' \<mapsto> PyArray [0]]"
proof -
  have a: "actor ex_agent = ex_actor" by (simp add: ex_agent_def)
  show ?thesis
    by (simp add: choose_action_def get_observation_def Let_def a ex_Actor_forward)
qed

theorem actions_within_max_action_witness:
  "reachable ex_backend ex_space ex_agent \<and> lower_le_upper ex_space
   \<and> choose_action ex_backend ex_agent (TimeStep [0]) [''mode'' \<mapsto> PyStr ''train''] (\<lambda>k. 5)
       = Inr [''raw_action'' \<mapsto> PyArray [2]]
   \<and> choose_action ex_backend ex_agent (TimeStep [0]) [''mode'' \<mapsto> PyStr ''eval''] (\<lambda>k. 5)
       = Inr [''raw_action'' \<mapsto> PyArray [0]]
   \<and> next_actions_of ex_backend ex_agent [[0]] ex_noise = [[1 / 2]]
   \<and> bounded_by (agent_max_action ex_agent) [2]
   \<and> bounded_by (agent_max_action ex_agent) [0]
   \<and> bounded_by (agent_max_action ex_agent) [1 / 2]"
proof -
  note t = actions_within_max_action [OF ex_reachable ex_lower_le_upper]
  from t ex_choose_action_train
  have 1: "\<exists>a. [''raw_action'' \<mapsto> PyArray [2]] = [''raw_action'' \<mapsto> PyArray a]
             \<and> bounded_by (agent_max_action ex_agent) a"
    by blast
  have inj: "a = b" if "[''raw_action'' \<mapsto> PyArray a] = [''raw_action'' \<mapsto> PyArray b]" for a b
    using that by (metis map_upd_eqD1 pyval.inject(2))
  from 1 inj have b1: "bounded_by (agent_max_action ex_agent) [2]" by metis
  from t ex_choose_action_eval
  have 2: "\<exists>a. [''raw_action'' \<mapsto> PyArray [0]] = [''raw_action'' \<mapsto> PyArray a]
             \<and> bounded_by (agent_max_action ex_agent) a"
    by blast
  from 2 inj have b2: "bounded_by (agent_max_action ex_agent) [0]" by metis
  from t have "\<forall>row \<in> set (next_actions_of ex_backend ex_agent [[0]] ex_noise).
            bounded_by (agent_max_action ex_agent) row"
    by blast
  then have b3: "bounded_by (agent_max_action ex_agent) [1 / 2]"
    by (simp add: ex_next_actions)
  from b1 b2 b3 ex_reachable ex_lower_le_upper ex_choose_action_train ex_choose_action_eval
    ex_next_actions
  show ?thesis by blast
qed

section \<open>The regression target inside the loop\<close>

text \<open>
  Claim C2. In every iteration of \<^verbatim>\<open>learn\<close> each entry of the regression target is
  \<open>reward + gamma * mask * min(Q1, Q2)\<close>, with the target critic evaluated at the next
  observation and at the target actor's output plus the smoothing draw clipped to
  \<open>\<plusminus> target_noise_clip\<close>, the sum clipped to \<open>\<plusminus> max_action\<close>; the critic loss of the
  iteration is the sum of the two mean squared errors against this target. The target is
  a plain value: computing it changes no state, and the gradient of the loss takes it as
  a constant.
\<close>

theorem learn_targets_formula:
  "length (targets_of bk ag (replay i) (noise i))
      = min (length (rewards (replay i)))
          (min (length (masks (replay i))) (length (next_observations (replay i))))
   \<and> (\<forall>r < length (targets_of bk ag (replay i) (noise i)).
        \<forall>j < length (targets_of bk ag (replay i) (noise i) ! r).
          targets_of bk ag (replay i) (noise i) ! r ! j = spec_target bk ag (replay i) (noise i) r j)
   \<and> (\<forall>lc ag' lc'. learn_body bk replay noise i (ag, lc) = (ag', Inr lc') \<longrightarrow>
         list_critic_loss lc' = list_critic_loss lc @
           [mse_loss (map fst (map2 (Critic_forward bk (critic ag))
                                 (observations (replay i)) (actions (replay i))))
              (targets_of bk ag (replay i) (noise i))
            + mse_loss (map snd (map2 (Critic_forward bk (critic ag))
                                   (observations (replay i)) (actions (replay i))))
                (targets_of bk ag (replay i) (noise i))])"
  using targets_of_entries [of bk ag "replay i" "noise i"] learn_body_critic_loss [of bk replay noise i ag]
  by blast

lemma ex_Q0: "Critic_forward ex_backend ex_critic [0] [0] = ([0], [0])"
  by (simp add: Critic_forward_def Critic_Q1_def Critic_Q2_def ex_defs relu_def)

theorem learn_targets_formula_witness:
  "targets_of ex_backend ex_agent ex_samples ex_noise = [[5 / 4]]
   \<and> spec_target ex_backend ex_agent ex_samples ex_noise 0 0 = 5 / 4
   \<and> (\<exists>ag' lc'. learn_body ex_backend (\<lambda>i. ex_samples) (\<lambda>i. ex_noise) 0 (ex_agent, lc_empty)
                    = (ag', Inr lc')
          \<and> list_critic_loss lc' = [25 / 8])"
proof -
  note t = learn_targets_formula [of ex_backend ex_agent "\<lambda>i. ex_samples" 0 "\<lambda>i. ex_noise"]
  from t have 1: "spec_target ex_backend ex_agent ex_samples ex_noise 0 0 = 5 / 4"
    by (simp add: ex_targets)
  have d: "agent_policy_delay (config (fst (ex_agent, lc_empty))) \<noteq> 0"
    by (simp add: ex_agent_def ex_config_def)
  from learn_body_history(2) [OF d, of ex_backend "\<lambda>i. ex_samples" "\<lambda>i. ex_noise" 0]
  obtain ag' lc' where
    b: "learn_body ex_backend (\<lambda>i. ex_samples) (\<lambda>i. ex_noise) 0 (ex_agent, lc_empty) = (ag', Inr lc')"
    by (metis prod.collapse)
  have c: "critic ex_agent = ex_critic" by (simp add: ex_agent_def)
  have s: "observations ex_samples = [[0]]" "actions ex_samples = [[0]]" by (simp_all add: ex_samples_def)
  from t b have "list_critic_loss lc' = list_critic_loss lc_empty @
           [mse_loss (map fst (map2 (Critic_forward ex_backend (critic ex_agent))
                                 (observations ex_samples) (actions ex_samples)))
              (targets_of ex_backend ex_agent ex_samples ex_noise)
            + mse_loss (map snd (map2 (Critic_forward ex_backend (critic ex_agent))
                                   (observations ex_samples) (actions ex_samples)))
                (targets_of ex_backend ex_agent ex_samples ex_noise)]"
    by blast
  then have 2: "list_critic_loss lc' = [25 / 8]"
    by (simp add: c s ex_Q0 ex_targets mse_loss_def mean_def tmap2_def lc_empty_def power2_eq_square)
  from 1 2 b ex_targets show ?thesis by blast
qed

section \<open>Termination of the rollout\<close>

lemma completes_after_append:
  "completes_after cs (ds @ [d]) =
     (case completes_after cs ds of Inl e \<Rightarrow> Inl e | Inr c \<Rightarrow> mark_completed (enumerate 0 d) c)"
  by (induction ds arbitrary: cs) (auto split: sum.splits)

lemma all_completed_after_append:
  "k \<le> length ds \<Longrightarrow> all_completed_after N (ds @ [d]) k = all_completed_after N ds k"
  by (simp add: all_completed_after_def)

lemma run_steps_terminal:
  assumes "run_steps A E ts (obs, a, s, D0) = Inr (D, a', s')" and "run_inv N D0"
  shows "length (D_actions D) \<le> length (D_actions D0) + length ts
       \<and> (length (D_actions D) < length (D_actions D0) + length ts \<longrightarrow> list_all (\<lambda>c. c) (completes D))
       \<and> length (D_dones D) = length (D_actions D)
       \<and> completes_after (replicate N False) (D_dones D) = Inr (completes D)
       \<and> (\<forall>k. 0 < k \<and> k < length (D_actions D) \<longrightarrow> \<not> all_completed_after N (D_dones D) k)"
  using assms
proof (induction ts arbitrary: obs a s D0)
  case Nil
  then show ?case by (auto simp: run_inv_def)
next
  case (Cons t ts)
  from Cons.prems(1) obtain out_agent a1 action out_agent1 obs1 reward dn info s1 cs where
    ch: "agent_choose_action A obs [''info'' \<mapsto> PyDict] a = Inr (out_agent, a1)" and
    pp: "dict_pop out_agent ''action'' = Inr (action, out_agent1)" and
    st: "env_step E (to_raw_action action) s = Inr ((obs1, reward, dn, info), s1)" and
    mk: "mark_completed (enumerate 0 dn) (completes D0) = Inr cs"
    by (auto simp: Let_def add_action_def add_observation_def add_reward_def add_done_def add_info_def
             split: sum.splits prod.splits)
  define D3 where "D3 = add_batch_info out_agent1
     ((add_info info (add_done dn (add_reward reward (add_observation obs1
         (add_action (to_raw_action action) D0)))))\<lparr>completes := cs\<rparr>)"
  have f: "D_dones D3 = D_dones D0 @ [dn]" "D_actions D3 = D_actions D0 @ [to_raw_action action]"
    "completes D3 = cs"
    by (simp_all add: D3_def add_batch_info_def add_info_def add_done_def add_reward_def
        add_observation_def add_action_def)
  have mk': "mark_completed (enumerate 0 dn)
      (completes (add_info info (add_done dn (add_reward reward (add_observation obs1
         (add_action (to_raw_action action) D0)))))) = Inr cs"
    using mk by (simp add: add_info_def add_done_def add_reward_def add_observation_def add_action_def)
  have r: "run_steps A E (t # ts) (obs, a, s, D0)
             = (if list_all (\<lambda>c. c) cs then Inr (D3, a1, s1) else run_steps A E ts (obs1, a1, s1, D3))"
    using ch pp st mk' f(3) by (simp add: Let_def D3_def [symmetric])
  from Cons.prems(2) have i1: "length (D_dones D0) = length (D_actions D0)"
    and i2: "completes_after (replicate N False) (D_dones D0) = Inr (completes D0)"
    and i3: "\<And>k. 0 < k \<Longrightarrow> k \<le> length (D_dones D0) \<Longrightarrow> \<not> all_completed_after N (D_dones D0) k"
    by (auto simp: run_inv_def)
  have c3: "completes_after (replicate N False) (D_dones D3) = Inr cs"
    by (simp add: f completes_after_append i2 mk)
  have e3: "\<not> all_completed_after N (D_dones D3) k" if "0 < k" "k \<le> length (D_dones D0)" for k
    using that i3 by (simp add: f all_completed_after_append)
  show ?case
  proof (cases "list_all (\<lambda>c. c) cs")
    case True
    with r Cons.prems(1) have D: "D = D3" by simp
    show ?thesis unfolding D using f i1 c3 e3 True by auto
  next
    case False
    with r Cons.prems(1) have rr: "run_steps A E ts (obs1, a1, s1, D3) = Inr (D, a', s')" by simp
    have last: "\<not> all_completed_after N (D_dones D3) (length (D_dones D3))"
      using c3 False by (simp add: all_completed_after_def)
    have inv3: "run_inv N D3"
      unfolding run_inv_def
    proof (intro conjI allI impI)
      show "length (D_dones D3) = length (D_actions D3)" using f i1 by simp
      show "completes_after (replicate N False) (D_dones D3) = Inr (completes D3)"
        using c3 f by simp
      fix k assume k: "0 < k \<and> k \<le> length (D_dones D3)"
      show "\<not> all_completed_after N (D_dones D3) k"
      proof (cases "k \<le> length (D_dones D0)")
        case True with k e3 show ?thesis by simp
      next
        case False
        with k f have "k = length (D_dones D3)" by simp
        with last show ?thesis by simp
      qed
    qed
    from Cons.IH [OF rr inv3] f show ?thesis by simp
  qed
qed


lemma run_inv_init: "run_inv N (add_observation obs (BatchEpisode_init N))"
  by (simp add: run_inv_def add_observation_def BatchEpisode_init_def)

lemma EpisodeRunner_general:
  assumes "EpisodeRunner_call A E T st = Inr (D, a, s)"
  shows "length (D_actions D) \<le> nat T
       \<and> (length (D_actions D) < nat T \<longrightarrow> list_all (\<lambda>c. c) (completes D))
       \<and> length (D_dones D) = length (D_actions D)
       \<and> completes_after (replicate (num_env E) False) (D_dones D) = Inr (completes D)
       \<and> (\<forall>k. 0 < k \<and> k < length (D_actions D) \<longrightarrow> \<not> all_completed_after (num_env E) (D_dones D) k)"
proof -
  obtain obs s1 where rs: "env_reset E (snd st) = (obs, s1)" by (cases "env_reset E (snd st)")
  define D1 where "D1 = add_observation obs (BatchEpisode_init (num_env E))"
  from assms rs have r: "run_steps A E [0..<nat T] (obs, agent_reset A (fst st), s1, D1) = Inr (D, a, s)"
    by (simp add: EpisodeRunner_call_def Let_def D1_def)
  have i: "run_inv (num_env E) D1" unfolding D1_def by (rule run_inv_init)
  have l: "length (D_actions D1) = 0"
    by (simp add: D1_def add_observation_def BatchEpisode_init_def)
  from run_steps_terminal [OF r i] l show ?thesis by simp
qed

lemma mark_completed_False: "mark_completed (enumerate 0 [False]) cs = Inr cs"
  by simp

lemma mark_completed_True: "mark_completed (enumerate 0 [True]) [c] = Inr [True]"
  by (simp add: set_completed_def)

lemma done_at_third_step:
  assumes len: "length (D_dones D) = n"
    and c: "completes_after [False] (D_dones D) = Inr (completes D)"
    and stop: "n < 5 \<longrightarrow> list_all (\<lambda>c. c) (completes D)"
    and first: "\<forall>k. 0 < k \<and> k < n \<longrightarrow> \<not> all_completed_after 1 (D_dones D) k"
    and f: "\<forall>k < n. k < 2 \<longrightarrow> D_dones D ! k = [False]"
    and t: "2 < n \<longrightarrow> D_dones D ! 2 = [True]"
  shows "n = 3"
proof -
  define ds where "ds = D_dones D"
  have ge: "3 \<le> n"
  proof (rule ccontr)
    assume "\<not> 3 \<le> n"
    then have n: "n = 0 \<or> n = 1 \<or> n = 2" by arith
    then have "ds = [] \<or> ds = [[False]] \<or> ds = [[False], [False]]"
    proof (elim disjE)
      assume "n = 0" with len show ?thesis by (simp add: ds_def)
    next
      assume n1: "n = 1"
      with len obtain x where "ds = [x]" unfolding ds_def by (cases "D_dones D") auto
      with f n1 show ?thesis by (simp add: ds_def)
    next
      assume n2: "n = 2"
      with len obtain x y where xy: "ds = [x, y]" unfolding ds_def
        by (cases "D_dones D"; cases "tl (D_dones D)") auto
      from f n2 have "ds ! 0 = [False]" "ds ! 1 = [False]" by (simp_all add: ds_def)
      with xy show ?thesis by simp
    qed
    then have "completes_after [False] ds = Inr [False]" by auto
    with c have "completes D = [False]" by (simp add: ds_def)
    with stop n show False by auto
  qed
  have le: "n \<le> 3"
  proof (rule ccontr)
    assume "\<not> n \<le> 3"
    then have n: "3 < n" by simp
    have "take 3 ds = [ds ! 0, ds ! 1, ds ! 2]"
      using n len by (simp add: ds_def numeral_3_eq_3 numeral_2_eq_2 take_Suc_conv_app_nth)
    also have "\<dots> = [[False], [False], [True]]" using f t n by (simp add: ds_def)
    finally have "all_completed_after 1 ds 3"
      by (simp add: all_completed_after_def set_completed_def)
    with first n show False by (simp add: ds_def)
  qed
  from ge le show ?thesis by simp
qed

text \<open>
  Claim C5. A rollout that returns has taken at most \<open>T\<close> steps; if it has taken fewer,
  every environment instance is marked completed; and after no earlier step were all
  instances completed, so the rollout stops at the first step after which they are. In
  particular, with \<open>T = 5\<close> and a single instance whose done flag is false at steps 1 and 2
  and true at step 3, the trajectory has length 3.
\<close>

theorem EpisodeRunner_terminal:
  assumes "EpisodeRunner_call A E T st = Inr (D, a, s)"
  shows "length (D_actions D) \<le> nat T
       \<and> (length (D_actions D) < nat T \<longrightarrow> list_all (\<lambda>c. c) (completes D))
       \<and> (\<forall>k. 0 < k \<and> k < length (D_actions D) \<longrightarrow> \<not> all_completed_after (num_env E) (D_dones D) k)
       \<and> (T = 5 \<and> num_env E = 1
            \<and> (\<forall>k < length (D_dones D). k < 2 \<longrightarrow> D_dones D ! k = [False])
            \<and> (2 < length (D_dones D) \<longrightarrow> D_dones D ! 2 = [True])
          \<longrightarrow> length (D_actions D) = 3)"
proof -
  note g = EpisodeRunner_general [OF assms]
  have "length (D_actions D) = 3"
    if h: "T = 5 \<and> num_env E = 1
            \<and> (\<forall>k < length (D_dones D). k < 2 \<longrightarrow> D_dones D ! k = [False])
            \<and> (2 < length (D_dones D) \<longrightarrow> D_dones D ! 2 = [True])"
  proof -
    from g h have l: "length (D_dones D) = length (D_actions D)"
      and c: "completes_after [False] (D_dones D) = Inr (completes D)"
      and stop: "length (D_actions D) < 5 \<longrightarrow> list_all (\<lambda>c. c) (completes D)"
      and first: "\<forall>k. 0 < k \<and> k < length (D_actions D) \<longrightarrow> \<not> all_completed_after 1 (D_dones D) k"
      by simp_all
    from h l have f: "\<forall>k < length (D_actions D). k < 2 \<longrightarrow> D_dones D ! k = [False]"
      and t: "2 < length (D_actions D) \<longrightarrow> D_dones D ! 2 = [True]"
      by simp_all
    from done_at_third_step [OF l c stop first f t] show ?thesis .
  qed
  with g show ?thesis by blast
qed

lemma ex_rollout:
  "\<exists>D. EpisodeRunner_call ex_policy ex_env 5 ((), 0) = Inr (D, (), 3)
       \<and> D_dones D = [[False], [False], [True]]
       \<and> D_actions D = [PyList [[0]], PyList [[0]], PyList [[0]]]"
proof -
  have u: "[0..<nat 5] = [0, 1, 2, 3, 4]" by code_simp
  show ?thesis
    unfolding EpisodeRunner_call_def u
    by (simp add: ex_policy_def ex_env_def Let_def dict_pop_def to_raw_action_def
        BatchEpisode_init_def add_observation_def add_action_def add_reward_def add_done_def
        add_info_def add_batch_info_def set_completed_def)
qed

theorem EpisodeRunner_terminal_witness:
  "\<exists>D. EpisodeRunner_call ex_policy ex_env 5 ((), 0) = Inr (D, (), 3)
       \<and> D_dones D = [[False], [False], [True]]
       \<and> length (D_actions D) = 3 \<and> length (D_actions D) < nat 5
       \<and> list_all (\<lambda>c. c) (completes D)
       \<and> \<not> all_completed_after (num_env ex_env) (D_dones D) 2"
proof -
  from ex_rollout obtain D where
    r: "EpisodeRunner_call ex_policy ex_env 5 ((), 0) = Inr (D, (), 3)"
    and d: "D_dones D = [[False], [False], [True]]"
    and a: "D_actions D = [PyList [[0]], PyList [[0]], PyList [[0]]]"
    by blast
  have n: "num_env ex_env = 1" by (simp add: ex_env_def)
  from EpisodeRunner_terminal [OF r] d n
  have 3: "length (D_actions D) = 3" by (simp add: nth_Cons split: nat.splits)
  from EpisodeRunner_terminal [OF r] 3
  have c: "list_all (\<lambda>c. c) (completes D)"
    and e: "\<not> all_completed_after (num_env ex_env) (D_dones D) 2"
    by simp_all
  from r d 3 c e show ?thesis by auto
qed

section \<open>The runner driving the TD3 agent\<close>

lemma choose_action_needs_mode:
  "kwargs ''mode'' = None \<Longrightarrow> \<exists>e. choose_action bk ag x kwargs noise = Inl e"
  by (cases "get_observation x") (simp_all add: choose_action_def Let_def)

lemma choose_action_no_action_key:
  assumes "choose_action bk ag x kwargs noise = Inr out"
  shows "dict_pop out ''action'' = Inl (KeyError ''action'')"
proof -
  from assms obtain a where "out = [''raw_action'' \<mapsto> a]"
    by (auto simp: choose_action_def Let_def split: sum.splits option.splits if_splits)
  then show ?thesis by (simp add: dict_pop_def)
qed

lemma TD3_rollout_never_returns:
  assumes "1 \<le> T"
  shows "\<exists>e. EpisodeRunner_call (TD3_iface bk) E T st = Inl e"
proof -
  from assms obtain ts where u: "[0..<nat T] = 0 # ts"
    by (cases "[0..<nat T]") (auto simp: upt_eq_Cons_conv)
  obtain obs s1 where rs: "env_reset E (snd st) = (obs, s1)" by (cases "env_reset E (snd st)")
  have m: "[''info'' \<mapsto> PyDict] ''mode'' = None" by simp
  from choose_action_needs_mode [of "[''info'' \<mapsto> PyDict]" bk "fst (fst st)" obs "snd (fst st)", OF m]
  obtain e where "choose_action bk (fst (fst st)) obs [''info'' \<mapsto> PyDict] (snd (fst st)) = Inl e"
    by blast
  then show ?thesis
    by (simp add: EpisodeRunner_call_def rs u Let_def TD3_iface_def)
qed

text \<open>
  Claim C7. The runner calls \<^verbatim>\<open>choose_action(obs, info=info)\<close> and pops the key \<^verbatim>\<open>action\<close>
  from the result. Driving the TD3 agent it raises in the first step, at the lookup of
  \<^verbatim>\<open>kwargs['mode']\<close>; and the dictionary the TD3 agent returns when a mode is given has
  the single key \<^verbatim>\<open>raw_action\<close>, so popping \<^verbatim>\<open>action\<close> from it raises as well.
\<close>

theorem TD3_rollout_raises:
  "EpisodeRunner_call (TD3_iface ex_backend) ex_env 5 ((ex_agent, \<lambda>k. 5), 0) = Inl (KeyError ''mode'')
   \<and> choose_action ex_backend ex_agent (TimeStep [0])
        [''info'' \<mapsto> PyDict, ''mode'' \<mapsto> PyStr ''train''] (\<lambda>k. 5)
       = Inr [''raw_action'' \<mapsto> PyArray [2]]
   \<and> dict_pop [''raw_action'' \<mapsto> PyArray [2]] ''action'' = Inl (KeyError ''action'')"
proof -
  have u: "[0..<nat 5] = [0, 1, 2, 3, 4]" by code_simp
  have a: "actor ex_agent = ex_actor" "env_action_space ex_agent = ex_space"
    by (simp_all add: ex_agent_def)
  have 1: "EpisodeRunner_call (TD3_iface ex_backend) ex_env 5 ((ex_agent, \<lambda>k. 5), 0)
             = Inl (KeyError ''mode'')"
    unfolding EpisodeRunner_call_def u
    by (simp add: TD3_iface_def ex_env_def Let_def choose_action_def get_observation_def)
  have 2: "choose_action ex_backend ex_agent (TimeStep [0])
        [''info'' \<mapsto> PyDict, ''mode'' \<mapsto> PyStr ''train''] (\<lambda>k. 5)
       = Inr [''raw_action'' \<mapsto> PyArray [2]]"
    by (simp add: choose_action_def get_observation_def Let_def a ex_Actor_forward np_clip_def
        broadcast_shape_def broadcast_to_def clamp_def ex_space_def)
  have 3: "dict_pop [''raw_action'' \<mapsto> PyArray [2]] ''action'' = Inl (KeyError ''action'')"
    by (simp add: dict_pop_def)
  from 1 2 3 show ?thesis by blast
qed

end
